theory Spec2Isabelle
  imports Complex_Main
begin

section \<open>JavaScript strings\<close>

text \<open>
  A JavaScript string is a sequence of UTF-16 code units; \<open>length\<close>, \<open>substring\<close>,
  \<open>trim\<close> and the regular expressions of the source all work on code units. A string
  is therefore a list of code units, each a natural number (below 65536 in JavaScript;
  no definition here depends on that bound). \<open>js\<close> turns an ASCII literal of the
  source into its code units.
\<close>

type_synonym jsstring = "nat list"

definition js :: "string \<Rightarrow> jsstring" where
  "js s = map of_char s"

text \<open>
  The class \<open>\s\<close> of a regular expression and the characters \<open>trim()\<close> strips are
  the same set: WhiteSpace and LineTerminator of ECMAScript.
\<close>

definition is_space :: "nat \<Rightarrow> bool" where
  "is_space c \<longleftrightarrow>
     (9 \<le> c \<and> c \<le> 13) \<or> c = 32 \<or> c = 160 \<or> c = 5760 \<or> (8192 \<le> c \<and> c \<le> 8202) \<or>
     c = 8232 \<or> c = 8233 \<or> c = 8239 \<or> c = 8287 \<or> c = 12288 \<or> c = 65279"

definition trim :: "jsstring \<Rightarrow> jsstring" where
  "trim s = rev (dropWhile is_space (rev (dropWhile is_space s)))"

section \<open>URL validation\<close>

text \<open>
  All patterns carry the flag \<open>i\<close> and consist of ASCII characters. Without the flag
  \<open>u\<close>, ECMAScript compares canonicalised code units: upper-casing, which never maps
  a code unit from 128 on to one below 128. Against an ASCII pattern it is therefore
  enough to fold the ASCII letters and to leave every other code unit alone.
\<close>

definition canonicalize :: "nat \<Rightarrow> nat" where
  "canonicalize c = (if 97 \<le> c \<and> c \<le> 122 then c - 32 else c)"

text \<open>\<open>starts_with_ci p s\<close>: the literal pattern \<open>p\<close> matches at the start of \<open>s\<close>.\<close>

fun starts_with_ci :: "jsstring \<Rightarrow> jsstring \<Rightarrow> bool" where
  "starts_with_ci [] s = True"
| "starts_with_ci (p # ps) [] = False"
| "starts_with_ci (p # ps) (c # cs) \<longleftrightarrow> canonicalize p = canonicalize c \<and> starts_with_ci ps cs"

text \<open>
  \<open>pattern.test(url)\<close> for a pattern without anchors and without the flag \<open>g\<close>: the
  match is tried at every index of the text, from the left.
\<close>

fun regexp_test :: "jsstring \<Rightarrow> jsstring \<Rightarrow> bool" where
  "regexp_test p [] = starts_with_ci p []"
| "regexp_test p (c # cs) \<longleftrightarrow> starts_with_ci p (c # cs) \<or> regexp_test p cs"

text \<open>\<^verbatim>\<open>YOUTUBE_PATTERNS\<close> of \<^verbatim>\<open>static/js/app.js\<close>: six literal patterns.\<close>

definition YOUTUBE_PATTERNS :: "jsstring list" where
  "YOUTUBE_PATTERNS =
     [js ''youtube.com/watch'',
      js ''youtu.be/'',
      js ''youtube.com/shorts/'',
      js ''youtube.com/embed/'',
      js ''youtube.com/v/'',
      js ''music.youtube.com'']"

text \<open>\<^verbatim>\<open>validateUrl\<close> of \<^verbatim>\<open>static/js/app.js\<close>: \<^verbatim>\<open>YOUTUBE_PATTERNS.some(pattern => pattern.test(url))\<close>.\<close>

definition validateUrl :: "jsstring \<Rightarrow> bool" where
  "validateUrl url = list_ex (\<lambda>pattern. regexp_test pattern url) YOUTUBE_PATTERNS"

text \<open>
  The second variant of the script (the file kept without a name) validates with one
  anchored pattern,
  \<^verbatim>\<open>/^(https?:\/\/)?(www\.)?(youtube\.com\/watch\?v=|youtu\.be\/|youtube\.com\/shorts\/|youtube\.com\/embed\/|music\.youtube\.com\/watch\?v=)[\w-]+/i\<close>.
  A backtracking matcher is modelled by the list of its successes: a matcher maps the
  text to the remainders it can leave, in the order the engine tries them; the test
  succeeds when some path through the pattern succeeds.
\<close>

type_synonym matcher = "jsstring \<Rightarrow> jsstring list"

definition lit :: "jsstring \<Rightarrow> matcher" where
  "lit p s = (if starts_with_ci p s then [drop (length p) s] else [])"

definition opt :: "matcher \<Rightarrow> matcher" where
  "opt m s = m s @ [s]"

definition seq :: "matcher \<Rightarrow> matcher \<Rightarrow> matcher" where
  "seq m1 m2 s = concat (map m2 (m1 s))"

definition alt :: "matcher list \<Rightarrow> matcher" where
  "alt ms s = concat (map (\<lambda>m. m s) ms)"

text \<open>The class \<^verbatim>\<open>[\w-]\<close>: ASCII letters, digits, the underscore and the hyphen.\<close>

definition word_or_hyphen :: "nat \<Rightarrow> bool" where
  "word_or_hyphen c \<longleftrightarrow>
     (48 \<le> c \<and> c \<le> 57) \<or> (65 \<le> c \<and> c \<le> 90) \<or> c = 95 \<or> (97 \<le> c \<and> c \<le> 122) \<or> c = 45"

text \<open>\<open>many1 P\<close> is the greedy \<^verbatim>\<open>[...]+\<close>: the longest run first.\<close>

fun many1 :: "(nat \<Rightarrow> bool) \<Rightarrow> matcher" where
  "many1 P [] = []"
| "many1 P (c # cs) = (if P c then many1 P cs @ [cs] else [])"

definition YOUTUBE_SHAPES_p0 :: "jsstring list" where
  "YOUTUBE_SHAPES_p0 =
     [js ''youtube.com/watch?v='',
      js ''youtu.be/'',
      js ''youtube.com/shorts/'',
      js ''youtube.com/embed/'',
      js ''music.youtube.com/watch?v='']"

definition YOUTUBE_PATTERN_p0 :: matcher where
  "YOUTUBE_PATTERN_p0 =
     seq (opt (seq (lit (js ''http'')) (seq (opt (lit (js ''s''))) (lit (js ''://'')))))
    (seq (opt (lit (js ''www.'')))
    (seq (alt (map lit YOUTUBE_SHAPES_p0))
         (many1 word_or_hyphen)))"

text \<open>\<^verbatim>\<open>validateUrl\<close> of the second variant: \<^verbatim>\<open>YOUTUBE_PATTERN.test(url)\<close>, anchored at index 0.\<close>

definition validateUrl_p0 :: "jsstring \<Rightarrow> bool" where
  "validateUrl_p0 url \<longleftrightarrow> YOUTUBE_PATTERN_p0 url \<noteq> []"

text \<open>
  The allow-list as the specification words it, for comparison with the source: the
  five URL shapes it names (watch, shorts, embed, the short link \<^verbatim>\<open>youtu.be\<close>, the music
  subdomain), read as leniently as possible: the shape's marker may stand anywhere in
  the text, in any letter case.
\<close>

definition spec_allowed_shapes :: "jsstring list" where
  "spec_allowed_shapes =
     [js ''youtube.com/watch'',
      js ''youtube.com/shorts/'',
      js ''youtube.com/embed/'',
      js ''youtu.be/'',
      js ''music.youtube.com'']"

definition spec_validate :: "jsstring \<Rightarrow> bool" where
  "spec_validate url = list_ex (\<lambda>shape. regexp_test shape url) spec_allowed_shapes"

text \<open>\<open>ci_eq u p\<close>: the texts \<open>u\<close> and \<open>p\<close> are equal up to the case of ASCII letters.\<close>

definition ci_eq :: "jsstring \<Rightarrow> jsstring \<Rightarrow> bool" where
  "ci_eq u p \<longleftrightarrow> map canonicalize u = map canonicalize p"

text \<open>
  A proof device for the anchored pattern: the matcher \<open>m\<close> accepts the language \<open>L\<close>
  when it strips from a text exactly the prefixes equal, up to case, to a member of \<open>L\<close>.
\<close>

definition accepts :: "matcher \<Rightarrow> jsstring set \<Rightarrow> bool" where
  "accepts m L \<longleftrightarrow> (\<forall>s r. r \<in> set (m s) \<longleftrightarrow> (\<exists>u p. s = u @ r \<and> p \<in> L \<and> ci_eq u p))"

section \<open>JavaScript values, numbers and errors\<close>

text \<open>
  The values the field \<^verbatim>\<open>duration\<close> of the metadata can hold: absent (\<^verbatim>\<open>undefined\<close>),
  \<^verbatim>\<open>null\<close>, a boolean, \<^verbatim>\<open>NaN\<close>, a number, or \<open>NonNumeric\<close>: any truthy value whose
  conversion to a number is \<^verbatim>\<open>NaN\<close> (a text that is no numeric literal such as \<^verbatim>\<open>"abc"\<close>, an
  object). The functions below read a duration through its truth value and its
  conversion to a number only, so these values all behave alike, and a text that is a
  numeric literal behaves as its number. Numbers are exact rationals: the rounding of
  IEEE doubles and the infinities are not modelled, so the model is exact for the
  integers and fractions a double holds exactly below \<open>2^53\<close>.
\<close>

datatype jsval = Undefined | Null | JBool bool | NaN | Num rat | NonNumeric

text \<open>\<^verbatim>\<open>ToNumber\<close>; the result \<open>None\<close> is \<^verbatim>\<open>NaN\<close>.\<close>

definition to_number :: "jsval \<Rightarrow> rat option" where
  "to_number v =
     (case v of
        Undefined \<Rightarrow> None
      | Null \<Rightarrow> Some 0
      | JBool b \<Rightarrow> Some (if b then 1 else 0)
      | NaN \<Rightarrow> None
      | Num x \<Rightarrow> Some x
      | NonNumeric \<Rightarrow> None)"

text \<open>\<open>falsy v\<close>: the operand of \<^verbatim>\<open>!v\<close> converts to false.\<close>

definition falsy :: "jsval \<Rightarrow> bool" where
  "falsy v \<longleftrightarrow> v = Undefined \<or> v = Null \<or> v = JBool False \<or> v = NaN \<or> v = Num 0"

text \<open>The comparisons \<^verbatim>\<open>v <= k\<close> and \<^verbatim>\<open>v > k\<close> with a number \<open>k\<close>: false when \<open>v\<close> converts to \<^verbatim>\<open>NaN\<close>.\<close>

definition js_le :: "jsval \<Rightarrow> rat \<Rightarrow> bool" where
  "js_le v k = (case to_number v of None \<Rightarrow> False | Some x \<Rightarrow> x \<le> k)"

definition js_gt :: "jsval \<Rightarrow> rat \<Rightarrow> bool" where
  "js_gt v k = (case to_number v of None \<Rightarrow> False | Some x \<Rightarrow> k < x)"

text \<open>The remainder \<^verbatim>\<open>a % b\<close>: the quotient is truncated towards zero.\<close>

definition js_rem :: "rat \<Rightarrow> rat \<Rightarrow> rat" where
  "js_rem a b = a - b * of_int (if 0 \<le> a / b then \<lfloor>a / b\<rfloor> else \<lceil>a / b\<rceil>)"

text \<open>Decimal text of an integral number, as a template literal or \<^verbatim>\<open>toString()\<close> prints it.\<close>

fun show_nat :: "nat \<Rightarrow> jsstring" where
  "show_nat n = (if n < 10 then [48 + n] else show_nat (n div 10) @ [48 + n mod 10])"

definition show_int :: "int \<Rightarrow> jsstring" where
  "show_int i = (if i < 0 then js ''-'' @ show_nat (nat (- i)) else show_nat (nat i))"

text \<open>\<^verbatim>\<open>padStart(2, '0')\<close>.\<close>

definition padStart2 :: "jsstring \<Rightarrow> jsstring" where
  "padStart2 t = replicate (2 - length t) 48 @ t"

text \<open>\<^verbatim>\<open>formatDuration\<close> (the same text in both variants).\<close>

definition formatDuration :: "jsval \<Rightarrow> jsstring" where
  "formatDuration seconds =
     (if falsy seconds \<or> js_le seconds 0 then js ''0:00''
      else
        (case to_number seconds of
           None \<Rightarrow> js ''NaN:NaN''
         | Some x \<Rightarrow>
             (let hours = \<lfloor>x / 3600\<rfloor>;
                  mins = \<lfloor>js_rem x 3600 / 60\<rfloor>;
                  secs = \<lfloor>js_rem x 60\<rfloor>
              in if hours > 0
                 then show_int hours @ js '':'' @ padStart2 (show_int mins) @ js '':'' @ padStart2 (show_int secs)
                 else show_int mins @ js '':'' @ padStart2 (show_int secs))))"

datatype js_error = Error jsstring | TypeError jsstring | SyntaxError jsstring | URIError jsstring

fun message :: "js_error \<Rightarrow> jsstring" where
  "message (Error m) = m"
| "message (TypeError m) = m"
| "message (SyntaxError m) = m"
| "message (URIError m) = m"

text \<open>
  \<^verbatim>\<open>encodeURIComponent\<close>: the unreserved characters stay, every other code point is
  written as the percent-escaped bytes of its UTF-8 encoding, and a surrogate without
  its partner raises \<^verbatim>\<open>URIError\<close> (the message text is the engine's).
\<close>

definition uri_unreserved :: "nat \<Rightarrow> bool" where
  "uri_unreserved c \<longleftrightarrow>
     (48 \<le> c \<and> c \<le> 57) \<or> (65 \<le> c \<and> c \<le> 90) \<or> (97 \<le> c \<and> c \<le> 122) \<or>
     c \<in> {45, 95, 46, 33, 126, 42, 39, 40, 41}"

definition hex_digit :: "nat \<Rightarrow> nat" where
  "hex_digit d = (if d < 10 then 48 + d else 55 + d)"

definition percent :: "nat \<Rightarrow> jsstring" where
  "percent b = [37, hex_digit (b div 16), hex_digit (b mod 16)]"

definition utf8 :: "nat \<Rightarrow> nat list" where
  "utf8 cp =
     (if cp < 128 then [cp]
      else if cp < 2048 then [192 + cp div 64, 128 + cp mod 64]
      else if cp < 65536 then [224 + cp div 4096, 128 + cp div 64 mod 64, 128 + cp mod 64]
      else [240 + cp div 262144, 128 + cp div 4096 mod 64, 128 + cp div 64 mod 64, 128 + cp mod 64])"

definition high_surrogate :: "nat \<Rightarrow> bool" where
  "high_surrogate c \<longleftrightarrow> 55296 \<le> c \<and> c \<le> 56319"

definition low_surrogate :: "nat \<Rightarrow> bool" where
  "low_surrogate c \<longleftrightarrow> 56320 \<le> c \<and> c \<le> 57343"

definition URI_malformed :: js_error where
  "URI_malformed = URIError (js ''URI malformed'')"

fun encodeURIComponent :: "jsstring \<Rightarrow> js_error + jsstring" where
  "encodeURIComponent [] = Inr []"
| "encodeURIComponent (c # cs) =
     (if uri_unreserved c then
        (case encodeURIComponent cs of Inl e \<Rightarrow> Inl e | Inr r \<Rightarrow> Inr (c # r))
      else if low_surrogate c then Inl URI_malformed
      else if high_surrogate c then
        (case cs of
           [] \<Rightarrow> Inl URI_malformed
         | d # ds \<Rightarrow>
             if low_surrogate d then
               (case encodeURIComponent ds of
                  Inl e \<Rightarrow> Inl e
                | Inr r \<Rightarrow>
                    Inr (concat (map percent (utf8 ((c - 55296) * 1024 + (d - 56320) + 65536))) @ r))
             else Inl URI_malformed)
      else
        (case encodeURIComponent cs of
           Inl e \<Rightarrow> Inl e
         | Inr r \<Rightarrow> Inr (concat (map percent (utf8 c)) @ r)))"

section \<open>The page: DOM state, timers and the observable trace\<close>

text \<open>
  The body of the info endpoint's answer, \<^verbatim>\<open>{ title?, channel?, duration?, thumbnail?, error? }\<close>:
  a JSON object whose text fields are absent (\<open>None\<close>) or strings. A body that parses
  to another JSON value (\<^verbatim>\<open>null\<close>, a number, a string) is not an answer of this endpoint
  and is outside the model.
\<close>

record video_info =
  info_title :: "jsstring option"
  info_channel :: "jsstring option"
  info_duration :: jsval
  info_thumbnail :: "jsstring option"
  info_error :: "jsstring option"

text \<open>
  What one call of \<^verbatim>\<open>fetch\<close> meets: the request fails (the promise of \<^verbatim>\<open>fetch\<close> rejects),
  or a response arrives with its flag \<^verbatim>\<open>ok\<close> and a body that \<^verbatim>\<open>response.json()\<close> either
  rejects (\<open>Inl\<close>, with the parser's exception) or parses (\<open>Inr\<close>).
\<close>

datatype fetch_outcome = NetworkFailure js_error | Response bool "js_error + video_info"

text \<open>
  The trace is a history of what an observer of the page sees, in program order: network
  requests (by \<^verbatim>\<open>fetch\<close> or by a frame), awaited pauses in milliseconds, console
  output, progress updates and status panels.
\<close>

datatype event =
    Request jsstring
  | Pause nat
  | ConsoleLog jsstring
  | ConsoleError js_error
  | Progress jsstring nat
  | Status jsstring jsstring jsstring

text \<open>The callbacks the script hands to \<^verbatim>\<open>setTimeout\<close> without awaiting them.\<close>

datatype timer = SuccessNotice | ResetForm | RemoveFrame nat

record page =
  isProcessing :: bool
  urlInput_value :: jsstring
  urlInput_disabled :: bool
  urlInput_error :: bool
  downloadBtn_disabled :: bool
  downloadBtn_loading :: bool
  songInfo_hidden :: bool
  thumb_src :: jsstring
  song_title :: jsstring
  song_title_tip :: jsstring
  song_channel :: jsstring
  song_duration :: jsstring
  status_className :: jsstring
  status_title :: jsstring
  status_message :: jsstring
  status_hidden :: bool
  progress_hidden :: bool
  progress_stage :: jsstring
  progress_percent :: jsstring
  progress_fill :: jsstring
  inputError_text :: jsstring
  inputError_visible :: bool
  inputHint_display :: jsstring
  frames :: "(nat \<times> jsstring) list"
  next_frame :: nat
  timers :: "(nat \<times> timer) list"
  trace :: "event list"

text \<open>
  \<open>urlInput_error\<close> and \<open>inputError_visible\<close> are the classes
  \<^verbatim>\<open>input-group__input--error\<close> and \<^verbatim>\<open>visible\<close>; \<open>frames\<close> are the hidden frames in the
  document body, each with the identity \<open>next_frame\<close> gave it and its \<^verbatim>\<open>src\<close>; \<open>timers\<close>
  are the pending timeouts with their delays.
\<close>

definition emit :: "event \<Rightarrow> page \<Rightarrow> page" where
  "emit e s = s\<lparr>trace := trace s @ [e]\<rparr>"

definition setTimeout :: "nat \<Rightarrow> timer \<Rightarrow> page \<Rightarrow> page" where
  "setTimeout ms t s = s\<lparr>timers := timers s @ [(ms, t)]\<rparr>"

text \<open>\<^verbatim>\<open>await sleep(ms)\<close>.\<close>

definition sleep :: "nat \<Rightarrow> page \<Rightarrow> page" where
  "sleep ms s = emit (Pause ms) s"

definition setProcessingState :: "bool \<Rightarrow> page \<Rightarrow> page" where
  "setProcessingState processing s =
     s\<lparr>isProcessing := processing,
       urlInput_disabled := processing,
       downloadBtn_disabled := processing,
       downloadBtn_loading := processing\<rparr>"

definition showProgress :: "jsstring \<Rightarrow> nat \<Rightarrow> page \<Rightarrow> page" where
  "showProgress stage percent' s =
     emit (Progress stage percent')
       (s\<lparr>progress_hidden := False,
          progress_stage := stage,
          progress_percent := show_nat percent' @ js ''%'',
          progress_fill := show_nat percent' @ js ''%''\<rparr>)"

definition hideProgress :: "page \<Rightarrow> page" where
  "hideProgress s = s\<lparr>progress_hidden := True, progress_fill := js ''0%''\<rparr>"

text \<open>\<^verbatim>\<open>x || d\<close> for an optional text \<open>x\<close>: absent and empty texts are falsy.\<close>

definition or_default :: "jsstring option \<Rightarrow> jsstring \<Rightarrow> jsstring" where
  "or_default x d = (case x of None \<Rightarrow> d | Some t \<Rightarrow> if t = [] then d else t)"

text \<open>
  \<^verbatim>\<open>showSongInfo\<close>. The handlers it installs on the thumbnail only toggle the
  thumbnail's own display when the image loads or fails; they are not modelled.
\<close>

definition showSongInfo :: "video_info \<Rightarrow> page \<Rightarrow> page" where
  "showSongInfo info s =
     s\<lparr>thumb_src := or_default (info_thumbnail info) [],
       song_title := or_default (info_title info) (js ''Unknown''),
       song_title_tip := or_default (info_title info) [],
       song_channel := or_default (info_channel info) (js ''Unknown''),
       song_duration := formatDuration (info_duration info),
       songInfo_hidden := False\<rparr>"

definition hideSongInfo :: "page \<Rightarrow> page" where
  "hideSongInfo s = s\<lparr>songInfo_hidden := True\<rparr>"

definition showStatus :: "jsstring \<Rightarrow> jsstring \<Rightarrow> jsstring \<Rightarrow> page \<Rightarrow> page" where
  "showStatus type title msg s =
     emit (Status type title msg)
       (s\<lparr>status_className := js ''status status--'' @ type,
          status_title := title,
          status_message := msg,
          status_hidden := False\<rparr>)"

definition hideStatus :: "page \<Rightarrow> page" where
  "hideStatus s = s\<lparr>status_hidden := True\<rparr>"

definition showSuccess :: "jsstring \<Rightarrow> jsstring \<Rightarrow> page \<Rightarrow> page" where
  "showSuccess title msg s = showStatus (js ''success'') title msg s"

definition showError :: "jsstring \<Rightarrow> jsstring \<Rightarrow> page \<Rightarrow> page" where
  "showError title msg s = showStatus (js ''error'') title msg s"

definition showInfo :: "jsstring \<Rightarrow> jsstring \<Rightarrow> page \<Rightarrow> page" where
  "showInfo title msg s = showStatus (js ''info'') title msg s"

definition showInputError :: "jsstring \<Rightarrow> page \<Rightarrow> page" where
  "showInputError msg s =
     s\<lparr>urlInput_error := True,
       inputError_text := msg,
       inputError_visible := True,
       inputHint_display := js ''none''\<rparr>"

definition clearInputError :: "page \<Rightarrow> page" where
  "clearInputError s =
     s\<lparr>urlInput_error := False, inputError_visible := False, inputHint_display := []\<rparr>"

text \<open>\<^verbatim>\<open>resetForm\<close> (the same four calls in both variants; neither assigns the input's value).\<close>

definition resetForm :: "page \<Rightarrow> page" where
  "resetForm s = clearInputError (hideSongInfo (hideProgress (hideStatus s)))"

text \<open>
  Removing a frame. The first variant removes it only while it is in the document; in
  the second the unguarded \<^verbatim>\<open>removeChild\<close> of a frame that is gone would raise inside the
  timer callback and change nothing. Either way the document loses exactly that frame.
\<close>

definition remove_frame :: "nat \<Rightarrow> page \<Rightarrow> page" where
  "remove_frame iframe s = s\<lparr>frames := filter (\<lambda>f. fst f \<noteq> iframe) (frames s)\<rparr>"

fun run_timer :: "timer \<Rightarrow> page \<Rightarrow> page" where
  "run_timer SuccessNotice s =
     hideProgress (showSuccess (js ''Download started!'') (js ''Check your browser downloads.'') s)"
| "run_timer ResetForm s = resetForm s"
| "run_timer (RemoveFrame iframe) s = remove_frame iframe s"

section \<open>The download controller\<close>

text \<open>
  \<^verbatim>\<open>fetchVideoInfo\<close> of \<^verbatim>\<open>static/js/app.js\<close>. The argument \<open>outcome\<close> is what this call of
  \<^verbatim>\<open>fetch\<close> meets. An exception is the result \<open>Inl\<close>; the request is issued only once its
  URL has been built.
\<close>

definition fetchVideoInfo :: "fetch_outcome \<Rightarrow> jsstring \<Rightarrow> page \<Rightarrow> (js_error + video_info) \<times> page" where
  "fetchVideoInfo outcome url s =
     (case encodeURIComponent url of
        Inl e \<Rightarrow> (Inl e, s)
      | Inr q \<Rightarrow>
          (let s' = emit (Request (js ''/api/info?url='' @ q)) s
           in case outcome of
                NetworkFailure e \<Rightarrow> (Inl e, s')
              | Response ok body \<Rightarrow>
                  (case body of
                     Inl e \<Rightarrow> (Inl (Error (js ''Server error. Please try again.'')), s')
                   | Inr data \<Rightarrow>
                       if \<not> ok
                       then (Inl (Error (or_default (info_error data) (js ''Failed to fetch video info''))), s')
                       else (Inr data, s'))))"

text \<open>\<^verbatim>\<open>fetchVideoInfo\<close> of the second variant: \<^verbatim>\<open>response.json()\<close> is awaited outside any \<^verbatim>\<open>try\<close>.\<close>

definition fetchVideoInfo_p0 :: "fetch_outcome \<Rightarrow> jsstring \<Rightarrow> page \<Rightarrow> (js_error + video_info) \<times> page" where
  "fetchVideoInfo_p0 outcome url s =
     (case encodeURIComponent url of
        Inl e \<Rightarrow> (Inl e, s)
      | Inr q \<Rightarrow>
          (let s' = emit (Request (js ''/api/info?url='' @ q)) s
           in case outcome of
                NetworkFailure e \<Rightarrow> (Inl e, s')
              | Response ok body \<Rightarrow>
                  (case body of
                     Inl e \<Rightarrow> (Inl e, s')
                   | Inr data \<Rightarrow>
                       if \<not> ok
                       then (Inl (Error (or_default (info_error data) (js ''Failed to fetch video info''))), s')
                       else (Inr data, s'))))"

text \<open>
  \<^verbatim>\<open>triggerDownload\<close>. The promise it returns is resolved by a timer (\<open>resolve_ms\<close>
  milliseconds), whose callback first schedules the removal of the frame (\<open>remove_ms\<close>
  milliseconds later); awaiting it is a pause of the trace. The two variants differ in
  the two delays only.
\<close>

definition triggerDownload_with :: "nat \<Rightarrow> nat \<Rightarrow> jsstring \<Rightarrow> jsstring option \<Rightarrow> page \<Rightarrow> (js_error + unit) \<times> page" where
  "triggerDownload_with resolve_ms remove_ms url title s =
     (case encodeURIComponent url of
        Inl e \<Rightarrow> (Inl e, s)
      | Inr q \<Rightarrow>
          (let downloadUrl = js ''/api/download?url='' @ q;
               iframe = next_frame s;
               s1 = emit (Request downloadUrl)
                      (s\<lparr>frames := frames s @ [(iframe, downloadUrl)], next_frame := Suc iframe\<rparr>);
               s2 = emit (Pause resolve_ms) s1;
               s3 = setTimeout remove_ms (RemoveFrame iframe) s2
           in (Inr (), s3)))"

definition triggerDownload :: "jsstring \<Rightarrow> jsstring option \<Rightarrow> page \<Rightarrow> (js_error + unit) \<times> page" where
  "triggerDownload = triggerDownload_with 1500 120000"

definition triggerDownload_p0 :: "jsstring \<Rightarrow> jsstring option \<Rightarrow> page \<Rightarrow> (js_error + unit) \<times> page" where
  "triggerDownload_p0 = triggerDownload_with 1000 60000"

text \<open>
  The retry loop of \<^verbatim>\<open>startDownload\<close> in \<^verbatim>\<open>static/js/app.js\<close>: \<open>env k\<close> is what the \<open>k\<close>-th call
  of \<^verbatim>\<open>fetchVideoInfo\<close> of this attempt sequence meets. The result is the values of
  \<^verbatim>\<open>info\<close> and \<^verbatim>\<open>lastError\<close> after the loop (\<open>None\<close> for \<^verbatim>\<open>undefined\<close>) and the page.
\<close>

function startDownload_retry ::
  "(nat \<Rightarrow> fetch_outcome) \<Rightarrow> jsstring \<Rightarrow> int \<Rightarrow> nat \<Rightarrow> js_error option \<Rightarrow> page
     \<Rightarrow> video_info option \<times> js_error option \<times> page" where
  "startDownload_retry env url retries k lastError s =
     (if retries \<ge> 0 then
        (case fetchVideoInfo (env k) url s of
           (Inr info, s1) \<Rightarrow> (Some info, lastError, s1)
         | (Inl err, s1) \<Rightarrow>
             (let retries' = retries - 1;
                  s2 = (if retries' \<ge> 0
                        then sleep 1000
                               (showProgress (js ''Retrying...'') 10
                                 (emit (ConsoleLog (js ''Retry attempt, '' @ show_int (retries' + 1) @ js '' left...'')) s1))
                        else s1)
              in startDownload_retry env url retries' (Suc k) (Some err) s2))
      else (None, lastError, s))"
  by pat_completeness auto
termination
  by (relation "measure (\<lambda>(env, url, retries, k, lastError, s). nat (retries + 1))") auto

text \<open>
  The statements of \<^verbatim>\<open>startDownload\<close> after the metadata has arrived, the same in both
  variants up to the \<^verbatim>\<open>triggerDownload\<close> they call.
\<close>

definition present_and_download ::
  "(jsstring \<Rightarrow> jsstring option \<Rightarrow> page \<Rightarrow> (js_error + unit) \<times> page) \<Rightarrow> jsstring \<Rightarrow> video_info \<Rightarrow> page
     \<Rightarrow> (js_error + unit) \<times> page" where
  "present_and_download trigger url info s =
     (let s1 = showProgress (js ''Preparing download...'') 30 (showSongInfo info s);
          s2 = (if js_gt (info_duration info) 900
                then showInfo (js ''Long video detected'')
                       (js ''This video is '' @ formatDuration (info_duration info) @
                        js ''. Download may take a few minutes.'') s1
                else s1);
          s3 = showProgress (js ''Downloading...'') 60 s2
      in case trigger url (info_title info) s3 of
           (Inl e, s4) \<Rightarrow> (Inl e, s4)
         | (Inr u, s4) \<Rightarrow>
             (Inr (),
              setTimeout 4000 ResetForm
                (setTimeout 500 SuccessNotice (showProgress (js ''Complete!'') 100 s4))))"

text \<open>The \<^verbatim>\<open>try\<close> block of \<^verbatim>\<open>startDownload\<close> in \<^verbatim>\<open>static/js/app.js\<close>.\<close>

definition startDownload_try :: "(nat \<Rightarrow> fetch_outcome) \<Rightarrow> jsstring \<Rightarrow> page \<Rightarrow> (js_error + unit) \<times> page" where
  "startDownload_try env url s =
     (case startDownload_retry env url 2 0 None s of
        (None, lastError, s1) \<Rightarrow>
          (Inl (case lastError of Some e \<Rightarrow> e | None \<Rightarrow> Error (js ''Could not get video info'')), s1)
      | (Some info, lastError, s1) \<Rightarrow> present_and_download triggerDownload url info s1)"

text \<open>\<^verbatim>\<open>error.message || 'Please try again.'\<close>.\<close>

definition message_or_retry :: "js_error \<Rightarrow> jsstring" where
  "message_or_retry e = (if message e = [] then js ''Please try again.'' else message e)"

text \<open>
  \<^verbatim>\<open>startDownload\<close> of \<^verbatim>\<open>static/js/app.js\<close>, run to its end with no other handler of the page
  running in between: the statements before \<^verbatim>\<open>try\<close>, the \<^verbatim>\<open>try\<close> block, \<^verbatim>\<open>catch\<close> and
  \<^verbatim>\<open>finally\<close>.
\<close>

definition startDownload :: "(nat \<Rightarrow> fetch_outcome) \<Rightarrow> jsstring \<Rightarrow> page \<Rightarrow> page" where
  "startDownload env url s =
     (let s0 = showProgress (js ''Fetching video info...'') 5
                 (hideSongInfo (hideStatus (setProcessingState True s)))
      in setProcessingState False
           (case startDownload_try env url s0 of
              (Inl err, s1) \<Rightarrow>
                hideSongInfo (hideProgress
                  (showError (js ''Download failed'') (message_or_retry err)
                    (emit (ConsoleError err) s1)))
            | (Inr u, s1) \<Rightarrow> s1))"

text \<open>\<^verbatim>\<open>startDownload\<close> of the second variant: one call of \<^verbatim>\<open>fetchVideoInfo\<close>, no console output.\<close>

definition startDownload_try_p0 :: "(nat \<Rightarrow> fetch_outcome) \<Rightarrow> jsstring \<Rightarrow> page \<Rightarrow> (js_error + unit) \<times> page" where
  "startDownload_try_p0 env url s =
     (case fetchVideoInfo_p0 (env 0) url s of
        (Inl e, s1) \<Rightarrow> (Inl e, s1)
      | (Inr info, s1) \<Rightarrow> present_and_download triggerDownload_p0 url info s1)"

definition startDownload_p0 :: "(nat \<Rightarrow> fetch_outcome) \<Rightarrow> jsstring \<Rightarrow> page \<Rightarrow> page" where
  "startDownload_p0 env url s =
     (let s0 = showProgress (js ''Fetching video info...'') 5
                 (hideSongInfo (hideStatus (setProcessingState True s)))
      in setProcessingState False
           (case startDownload_try_p0 env url s0 of
              (Inl err, s1) \<Rightarrow>
                hideSongInfo (hideProgress (showError (js ''Download failed'') (message_or_retry err) s1))
            | (Inr u, s1) \<Rightarrow> s1))"

text \<open>
  \<^verbatim>\<open>handleSubmit\<close>: the same text in both variants, each with its own \<^verbatim>\<open>validateUrl\<close> and
  \<^verbatim>\<open>startDownload\<close>. (\<^verbatim>\<open>e.preventDefault()\<close> only keeps the browser from navigating; it does
  not touch the page state.)
\<close>

definition handleSubmit :: "(nat \<Rightarrow> fetch_outcome) \<Rightarrow> page \<Rightarrow> page" where
  "handleSubmit env s =
     (if isProcessing s then s
      else
        (let url = trim (urlInput_value s)
         in if url = [] then showInputError (js ''Please enter a YouTube link'') s
            else if \<not> validateUrl url then showInputError (js ''Please enter a valid YouTube link'') s
            else startDownload env url s))"

definition handleSubmit_p0 :: "(nat \<Rightarrow> fetch_outcome) \<Rightarrow> page \<Rightarrow> page" where
  "handleSubmit_p0 env s =
     (if isProcessing s then s
      else
        (let url = trim (urlInput_value s)
         in if url = [] then showInputError (js ''Please enter a YouTube link'') s
            else if \<not> validateUrl_p0 url then showInputError (js ''Please enter a valid YouTube link'') s
            else startDownload_p0 env url s))"

section \<open>File names\<close>


text \<open>\<^verbatim>\<open>.replace(/\s+/g, ' ')\<close>: every maximal run of white space becomes one space.\<close>

function collapse_spaces :: "jsstring \<Rightarrow> jsstring" where
  "collapse_spaces [] = []"
| "collapse_spaces (c # cs) =
     (if is_space c then 32 # collapse_spaces (dropWhile is_space cs) else c # collapse_spaces cs)"
  by pat_completeness auto
termination
  by (relation "measure length") (auto simp: length_dropWhile_le less_Suc_eq_le)


text \<open>A page as it is after loading, with a text typed into the input.\<close>

definition initial_page :: "jsstring \<Rightarrow> page" where
  "initial_page typed =
     \<lparr>isProcessing = False, urlInput_value = typed, urlInput_disabled = False,
      urlInput_error = False, downloadBtn_disabled = False, downloadBtn_loading = False,
      songInfo_hidden = True, thumb_src = [], song_title = [], song_title_tip = [],
      song_channel = [], song_duration = [], status_className = js ''status'',
      status_title = [], status_message = [], status_hidden = True,
      progress_hidden = True, progress_stage = [], progress_percent = js ''0%'',
      progress_fill = js ''0%'', inputError_text = [], inputError_visible = False,
      inputHint_display = [], frames = [], next_frame = 0, timers = [], trace = []\<rparr>"

section \<open>Vocabulary of the statements\<close>

text \<open>
  The events one call of \<^verbatim>\<open>fetchVideoInfo\<close> adds to the trace: the request to the info
  endpoint, unless the URL cannot be encoded.
\<close>

definition info_requests :: "jsstring \<Rightarrow> event list" where
  "info_requests url =
     (case encodeURIComponent url of Inl e \<Rightarrow> [] | Inr q \<Rightarrow> [Request (js ''/api/info?url='' @ q)])"

text \<open>What the retry loop adds between two attempts, with \<open>n\<close> retries left.\<close>

definition retry_events :: "int \<Rightarrow> event list" where
  "retry_events n =
     [ConsoleLog (js ''Retry attempt, '' @ show_int n @ js '' left...''),
      Progress (js ''Retrying...'') 10,
      Pause 1000]"

text \<open>The status panel for a long video, as an event: present iff the duration exceeds 900.\<close>

definition long_video_events :: "video_info \<Rightarrow> event list" where
  "long_video_events info =
     (if js_gt (info_duration info) 900
      then [Status (js ''info'') (js ''Long video detected'')
              (js ''This video is '' @ formatDuration (info_duration info) @
               js ''. Download may take a few minutes.'')]
      else [])"

text \<open>
  The events between the arrival of the metadata and the end of a successful attempt;
  \<open>q\<close> is the encoded URL and \<open>resolve_ms\<close> the delay of the download trigger.
\<close>

definition download_events :: "nat \<Rightarrow> jsstring \<Rightarrow> video_info \<Rightarrow> event list" where
  "download_events resolve_ms q info =
     [Progress (js ''Preparing download...'') 30] @ long_video_events info @
     [Progress (js ''Downloading...'') 60,
      Request (js ''/api/download?url='' @ q),
      Pause resolve_ms,
      Progress (js ''Complete!'') 100]"

text \<open>Sample inputs for the closed instances of the theorems.\<close>

definition sample_url :: jsstring where
  "sample_url = js ''https://youtu.be/abc123''"

definition sample_info :: "jsval \<Rightarrow> video_info" where
  "sample_info d =
     \<lparr>info_title = Some (js ''Song''), info_channel = Some (js ''Channel''),
      info_duration = d, info_thumbnail = None, info_error = None\<rparr>"

definition offline :: js_error where
  "offline = TypeError (js ''Failed to fetch'')"

text \<open>An endpoint that is unreachable for the first \<open>n\<close> calls and then answers with duration \<open>d\<close>.\<close>

definition env_recovering :: "nat \<Rightarrow> jsval \<Rightarrow> nat \<Rightarrow> fetch_outcome" where
  "env_recovering n d k = (if k < n then NetworkFailure offline else Response True (Inr (sample_info d)))"

text \<open>A body that is not JSON (an HTML error page), and an answer that refuses with a message.\<close>

definition html_body_error :: js_error where
  "html_body_error = SyntaxError (js ''Unexpected token < in JSON at position 0'')"

definition quota_answer :: fetch_outcome where
  "quota_answer =
     Response False
       (Inr \<lparr>info_title = None, info_channel = None, info_duration = Undefined,
             info_thumbnail = None, info_error = Some (js ''quota exceeded'')\<rparr>)"




section \<open>Lemmas: matching\<close>

lemma ci_eq_Nil [simp]: "ci_eq u [] \<longleftrightarrow> u = []" "ci_eq [] p \<longleftrightarrow> p = []"
  by (auto simp: ci_eq_def)

lemma ci_eq_length: "ci_eq u p \<Longrightarrow> length u = length p"
  unfolding ci_eq_def by (rule map_eq_imp_length_eq)

lemma ci_eq_append: "ci_eq u (p1 @ p2) \<longleftrightarrow> (\<exists>u1 u2. u = u1 @ u2 \<and> ci_eq u1 p1 \<and> ci_eq u2 p2)"
proof -
  have "map canonicalize u = map canonicalize p1 @ map canonicalize p2 \<longleftrightarrow>
        (\<exists>us vs. u = us @ vs \<and> map canonicalize p1 = map canonicalize us \<and> map canonicalize p2 = map canonicalize vs)"
    by (rule map_eq_append_conv)
  also have "\<dots> \<longleftrightarrow> (\<exists>us vs. u = us @ vs \<and> map canonicalize us = map canonicalize p1 \<and> map canonicalize vs = map canonicalize p2)"
    by (simp only: eq_commute [of "map canonicalize p1"] eq_commute [of "map canonicalize p2"])
  finally show ?thesis by (simp add: ci_eq_def)
qed

lemma starts_with_ci_iff: "starts_with_ci p s \<longleftrightarrow> (\<exists>u r. s = u @ r \<and> ci_eq u p)"
proof (induction p s rule: starts_with_ci.induct)
  case (1 s)
  then show ?case by simp
next
  case (2 p ps)
  then show ?case by (simp add: ci_eq_def)
next
  case (3 p ps c cs)
  show ?case
  proof
    assume "starts_with_ci (p # ps) (c # cs)"
    with 3 obtain u r where "cs = u @ r" "ci_eq u ps" "canonicalize p = canonicalize c" by auto
    then have "c # cs = (c # u) @ r \<and> ci_eq (c # u) (p # ps)" by (simp add: ci_eq_def)
    then show "\<exists>u r. c # cs = u @ r \<and> ci_eq u (p # ps)" by blast
  next
    assume "\<exists>u r. c # cs = u @ r \<and> ci_eq u (p # ps)"
    then obtain u r where ur: "c # cs = u @ r" "ci_eq u (p # ps)" by blast
    then obtain u' where "u = c # u'" by (cases u) (auto simp: ci_eq_def)
    with ur have "cs = u' @ r" "ci_eq u' ps" "canonicalize p = canonicalize c" by (auto simp: ci_eq_def)
    with 3 show "starts_with_ci (p # ps) (c # cs)" by auto
  qed
qed

lemma starts_with_ci_drop: "starts_with_ci p s \<Longrightarrow> \<exists>u. s = u @ drop (length p) s \<and> ci_eq u p"
proof -
  assume "starts_with_ci p s"
  then obtain u r where ur: "s = u @ r" "ci_eq u p" by (auto simp: starts_with_ci_iff)
  then have "drop (length p) s = r" by (simp add: ci_eq_length[symmetric])
  with ur show ?thesis by auto
qed

lemma regexp_test_iff: "regexp_test p s \<longleftrightarrow> (\<exists>pre u suf. s = pre @ u @ suf \<and> ci_eq u p)"
proof (induction s)
  case Nil
  then show ?case by (auto simp: starts_with_ci_iff)
next
  case (Cons c cs)
  show ?case
  proof
    assume "regexp_test p (c # cs)"
    then consider "starts_with_ci p (c # cs)" | "regexp_test p cs" by auto
    then show "\<exists>pre u suf. c # cs = pre @ u @ suf \<and> ci_eq u p"
    proof cases
      case 1
      then obtain u r where "c # cs = [] @ u @ r \<and> ci_eq u p" by (auto simp: starts_with_ci_iff)
      then show ?thesis by blast
    next
      case 2
      with Cons obtain pre u suf where "cs = pre @ u @ suf" "ci_eq u p" by blast
      then have "c # cs = (c # pre) @ u @ suf \<and> ci_eq u p" by simp
      then show ?thesis by blast
    qed
  next
    assume "\<exists>pre u suf. c # cs = pre @ u @ suf \<and> ci_eq u p"
    then obtain pre u suf where h: "c # cs = pre @ u @ suf" "ci_eq u p" by blast
    show "regexp_test p (c # cs)"
    proof (cases pre)
      case Nil
      with h have "starts_with_ci p (c # cs)" by (auto simp: starts_with_ci_iff)
      then show ?thesis by simp
    next
      case (Cons a pre')
      with h have "cs = pre' @ u @ suf" by simp
      with h Cons.IH have "regexp_test p cs" by blast
      then show ?thesis by simp
    qed
  qed
qed

lemma accepts_lit: "accepts (lit p) {p}"
  unfolding accepts_def lit_def
proof (intro allI)
  fix s r
  show "r \<in> set (if starts_with_ci p s then [drop (length p) s] else []) \<longleftrightarrow>
        (\<exists>u q. s = u @ r \<and> q \<in> {p} \<and> ci_eq u q)"
  proof (cases "starts_with_ci p s")
    case True
    then obtain u where u: "s = u @ drop (length p) s" "ci_eq u p" using starts_with_ci_drop by blast
    have "\<And>u' . s = u' @ r \<Longrightarrow> ci_eq u' p \<Longrightarrow> r = drop (length p) s"
      by (simp add: ci_eq_length[symmetric])
    with True u show ?thesis by auto
  next
    case False
    then show ?thesis by (auto simp: starts_with_ci_iff)
  qed
qed

lemma accepts_opt:
  assumes "accepts m L"
  shows "accepts (opt m) (insert [] L)"
  unfolding accepts_def
proof (intro allI iffI)
  fix s r
  assume "r \<in> set (opt m s)"
  then consider "r \<in> set (m s)" | "r = s" by (auto simp: opt_def)
  then show "\<exists>u p. s = u @ r \<and> p \<in> insert [] L \<and> ci_eq u p"
  proof cases
    case 1
    with assms obtain u p where "s = u @ r" "p \<in> L" "ci_eq u p" unfolding accepts_def by blast
    then show ?thesis by blast
  next
    case 2
    then have "s = [] @ r \<and> [] \<in> insert [] L \<and> ci_eq [] []" by simp
    then show ?thesis by blast
  qed
next
  fix s r
  assume "\<exists>u p. s = u @ r \<and> p \<in> insert [] L \<and> ci_eq u p"
  then obtain u p where h: "s = u @ r" "p \<in> insert [] L" "ci_eq u p" by blast
  show "r \<in> set (opt m s)"
  proof (cases "p = []")
    case True
    with h have "r = s" by simp
    then show ?thesis by (simp add: opt_def)
  next
    case False
    with h have "p \<in> L" by simp
    with h assms have "r \<in> set (m s)" unfolding accepts_def by blast
    then show ?thesis by (simp add: opt_def)
  qed
qed

lemma acceptsD: "accepts m L \<Longrightarrow> r \<in> set (m s) \<Longrightarrow> \<exists>u p. s = u @ r \<and> p \<in> L \<and> ci_eq u p"
  unfolding accepts_def by (erule allE [of _ s], erule allE [of _ r], erule iffD1, assumption)

lemma acceptsI: "accepts m L \<Longrightarrow> p \<in> L \<Longrightarrow> ci_eq u p \<Longrightarrow> r \<in> set (m (u @ r))"
  unfolding accepts_def by (erule allE [of _ "u @ r"], erule allE [of _ r], erule iffD2, blast)

lemma accepts_seq:
  assumes m1: "accepts m1 L1" and m2: "accepts m2 L2"
  shows "accepts (seq m1 m2) {p1 @ p2 | p1 p2. p1 \<in> L1 \<and> p2 \<in> L2}"
  unfolding accepts_def
proof (intro allI iffI)
  fix s r
  assume "r \<in> set (seq m1 m2 s)"
  then obtain t where t: "t \<in> set (m1 s)" "r \<in> set (m2 t)" by (auto simp: seq_def)
  from acceptsD [OF m1 t(1)] obtain u1 p1 where 1: "s = u1 @ t" "p1 \<in> L1" "ci_eq u1 p1" by blast
  from acceptsD [OF m2 t(2)] obtain u2 p2 where 2: "t = u2 @ r" "p2 \<in> L2" "ci_eq u2 p2" by blast
  from 1 2 have "ci_eq (u1 @ u2) (p1 @ p2)" by (simp add: ci_eq_def)
  moreover from 1 2 have "s = (u1 @ u2) @ r" by simp
  moreover from 1 2 have "p1 @ p2 \<in> {p1 @ p2 | p1 p2. p1 \<in> L1 \<and> p2 \<in> L2}" by blast
  ultimately show "\<exists>u p. s = u @ r \<and> p \<in> {p1 @ p2 | p1 p2. p1 \<in> L1 \<and> p2 \<in> L2} \<and> ci_eq u p" by blast
next
  fix s r
  assume "\<exists>u p. s = u @ r \<and> p \<in> {p1 @ p2 | p1 p2. p1 \<in> L1 \<and> p2 \<in> L2} \<and> ci_eq u p"
  then obtain u p1 p2 where h: "s = u @ r" "p1 \<in> L1" "p2 \<in> L2" "ci_eq u (p1 @ p2)" by blast
  from h(4) obtain u1 u2 where u: "u = u1 @ u2" "ci_eq u1 p1" "ci_eq u2 p2"
    unfolding ci_eq_append by blast
  from acceptsI [OF m1 h(2) u(2)] have "u2 @ r \<in> set (m1 (u1 @ u2 @ r))" .
  moreover from acceptsI [OF m2 h(3) u(3)] have "r \<in> set (m2 (u2 @ r))" .
  ultimately show "r \<in> set (seq m1 m2 s)" using h(1) u(1) by (auto simp: seq_def)
qed

lemma accepts_alt_lit: "accepts (alt (map lit ps)) (set ps)"
proof -
  have "\<And>s r. r \<in> set (alt (map lit ps) s) \<longleftrightarrow> (\<exists>p \<in> set ps. r \<in> set (lit p s))"
    by (auto simp: alt_def)
  moreover have "\<And>p s r. r \<in> set (lit p s) \<longleftrightarrow> (\<exists>u. s = u @ r \<and> ci_eq u p)"
    using accepts_lit unfolding accepts_def by simp
  ultimately show ?thesis unfolding accepts_def by blast
qed

lemma many1_nonempty: "many1 P s \<noteq> [] \<longleftrightarrow> (\<exists>c rest. s = c # rest \<and> P c)"
  by (cases s) auto

lemma accepts_eq: "accepts m L \<Longrightarrow> L = L' \<Longrightarrow> accepts m L'"
  by simp

lemma set_seq: "set (seq m1 m2 s) = (\<Union>t \<in> set (m1 s). set (m2 t))"
  by (simp add: seq_def)

lemma seq_nonempty: "seq m1 m2 s \<noteq> [] \<longleftrightarrow> (\<exists>t \<in> set (m1 s). m2 t \<noteq> [])"
  by (auto simp: seq_def)

lemma accepts_scheme:
  "accepts (opt (seq (lit (js ''http'')) (seq (opt (lit (js ''s''))) (lit (js ''://''))))) {[], js ''http://'', js ''https://''}"
proof -
  have 1: "accepts (seq (opt (lit (js ''s''))) (lit (js ''://''))) {js ''://'', js ''s://''}"
    by (rule accepts_eq [OF accepts_seq [OF accepts_opt [OF accepts_lit] accepts_lit]])
       (auto simp: js_def)
  have 2: "accepts (seq (lit (js ''http'')) (seq (opt (lit (js ''s''))) (lit (js ''://'')))) {js ''http://'', js ''https://''}"
    by (rule accepts_eq [OF accepts_seq [OF accepts_lit 1]]) (auto simp: js_def)
  show ?thesis
    by (rule accepts_opt [OF 2])
qed

lemma accepts_prefix:
  "accepts (seq (opt (seq (lit (js ''http'')) (seq (opt (lit (js ''s''))) (lit (js ''://'')))))
           (seq (opt (lit (js ''www.''))) (alt (map lit YOUTUBE_SHAPES_p0))))
     {scheme @ www @ shape | scheme www shape.
        scheme \<in> {[], js ''http://'', js ''https://''} \<and> www \<in> {[], js ''www.''} \<and> shape \<in> set YOUTUBE_SHAPES_p0}"
proof -
  have 1: "accepts (seq (opt (lit (js ''www.''))) (alt (map lit YOUTUBE_SHAPES_p0)))
             {www @ shape | www shape. www \<in> {[], js ''www.''} \<and> shape \<in> set YOUTUBE_SHAPES_p0}"
    by (rule accepts_seq [OF accepts_opt [OF accepts_lit] accepts_alt_lit])
  show ?thesis
    by (rule accepts_eq [OF accepts_seq [OF accepts_scheme 1]]) blast
qed

lemma seq_assoc_nonempty:
  "seq m1 (seq m2 (seq m3 m4)) s \<noteq> [] \<longleftrightarrow> (\<exists>r \<in> set (seq m1 (seq m2 m3) s). m4 r \<noteq> [])"
  by (simp add: seq_nonempty set_seq)

lemma validateUrl_iff:
  "validateUrl url \<longleftrightarrow>
     (\<exists>p pre u suf. p \<in> set YOUTUBE_PATTERNS \<and> url = pre @ u @ suf \<and> ci_eq u p)"
  unfolding validateUrl_def list_ex_iff regexp_test_iff by blast

lemma validateUrl_p0_iff:
  "validateUrl_p0 url \<longleftrightarrow>
     (\<exists>scheme www shape u c rest.
         scheme \<in> {[], js ''http://'', js ''https://''} \<and> www \<in> {[], js ''www.''} \<and>
         shape \<in> set YOUTUBE_SHAPES_p0 \<and>
         url = u @ c # rest \<and> ci_eq u (scheme @ www @ shape) \<and> word_or_hyphen c)"
proof -
  let ?L = "{scheme @ www @ shape | scheme www shape.
        scheme \<in> {[], js ''http://'', js ''https://''} \<and> www \<in> {[], js ''www.''} \<and> shape \<in> set YOUTUBE_SHAPES_p0}"
  let ?M = "seq (opt (seq (lit (js ''http'')) (seq (opt (lit (js ''s''))) (lit (js ''://'')))))
           (seq (opt (lit (js ''www.''))) (alt (map lit YOUTUBE_SHAPES_p0)))"
  let ?R = "\<exists>scheme www shape u c rest.
          scheme \<in> {[], js ''http://'', js ''https://''} \<and> www \<in> {[], js ''www.''} \<and>
          shape \<in> set YOUTUBE_SHAPES_p0 \<and>
          url = u @ c # rest \<and> ci_eq u (scheme @ www @ shape) \<and> word_or_hyphen c"
  have M: "validateUrl_p0 url \<longleftrightarrow> (\<exists>r \<in> set (?M url). many1 word_or_hyphen r \<noteq> [])"
    unfolding validateUrl_p0_def YOUTUBE_PATTERN_p0_def by (rule seq_assoc_nonempty)
  show ?thesis
  proof
    assume "validateUrl_p0 url"
    with M obtain r where r: "r \<in> set (?M url)" "many1 word_or_hyphen r \<noteq> []" by blast
    from acceptsD [OF accepts_prefix r(1)] obtain u p where up: "url = u @ r" "p \<in> ?L" "ci_eq u p"
      by blast
    from r(2) obtain c rest where c: "r = c # rest" "word_or_hyphen c"
      unfolding many1_nonempty by blast
    from up(2) obtain scheme www shape where p: "p = scheme @ www @ shape"
      "scheme \<in> {[], js ''http://'', js ''https://''}" "www \<in> {[], js ''www.''}"
      "shape \<in> set YOUTUBE_SHAPES_p0" by blast
    from up(1) c(1) have "url = u @ c # rest" by simp
    with p up(3) c(2) show ?R by blast
  next
    assume ?R
    then obtain scheme www shape u c rest where h:
      "scheme \<in> {[], js ''http://'', js ''https://''}" "www \<in> {[], js ''www.''}"
      "shape \<in> set YOUTUBE_SHAPES_p0" "url = u @ c # rest" "ci_eq u (scheme @ www @ shape)"
      "word_or_hyphen c" by blast
    from h(1-3) have "scheme @ www @ shape \<in> ?L" by blast
    from acceptsI [OF accepts_prefix this h(5)] have "c # rest \<in> set (?M (u @ c # rest))" .
    moreover from h(6) have "many1 word_or_hyphen (c # rest) \<noteq> []" by simp
    ultimately show "validateUrl_p0 url" using M h(4) by blast
  qed
qed

section \<open>Lemmas: the controller\<close>

lemmas page_ops =
  emit_def setTimeout_def sleep_def setProcessingState_def showProgress_def hideProgress_def
  showSongInfo_def hideSongInfo_def showStatus_def hideStatus_def showSuccess_def
  showError_def showInfo_def showInputError_def clearInputError_def resetForm_def
  remove_frame_def

declare startDownload_retry.simps [simp del]
declare show_nat.simps [simp del]

lemma snd_fetchVideoInfo:
  "snd (fetchVideoInfo outcome url s) = s\<lparr>trace := trace s @ info_requests url\<rparr>"
  by (simp add: fetchVideoInfo_def info_requests_def emit_def Let_def
           split: sum.splits fetch_outcome.splits)

lemma fst_fetchVideoInfo: "fst (fetchVideoInfo outcome url s) = fst (fetchVideoInfo outcome url t)"
  by (simp add: fetchVideoInfo_def Let_def split: sum.splits fetch_outcome.splits)

lemma fetchVideoInfo_Inr_encodable:
  "fst (fetchVideoInfo outcome url s) = Inr info \<Longrightarrow> \<exists>q. encodeURIComponent url = Inr q"
  by (cases "encodeURIComponent url") (simp_all add: fetchVideoInfo_def)

lemma retry_fail:
  assumes "0 \<le> r" and "fst (fetchVideoInfo (env k) url s) = Inl err"
  shows "startDownload_retry env url r k le s =
           startDownload_retry env url (r - 1) (Suc k) (Some err)
             (if 0 \<le> r - 1
              then sleep 1000 (showProgress (js ''Retrying...'') 10
                     (emit (ConsoleLog (js ''Retry attempt, '' @ show_int (r - 1 + 1) @ js '' left...''))
                        (snd (fetchVideoInfo (env k) url s))))
              else snd (fetchVideoInfo (env k) url s))"
proof (cases "fetchVideoInfo (env k) url s")
  case (Pair a b)
  with assms(2) have "a = Inl err" by simp
  with Pair assms(1) show ?thesis
    by (subst startDownload_retry.simps) (simp add: Let_def)
qed

lemma retry_ok:
  assumes "0 \<le> r" and "fst (fetchVideoInfo (env k) url s) = Inr info"
  shows "startDownload_retry env url r k le s = (Some info, le, snd (fetchVideoInfo (env k) url s))"
proof (cases "fetchVideoInfo (env k) url s")
  case (Pair a b)
  with assms(2) have "a = Inr info" by simp
  with Pair assms(1) show ?thesis
    by (subst startDownload_retry.simps) simp
qed

lemma retry_done: "r < 0 \<Longrightarrow> startDownload_retry env url r k le s = (None, le, s)"
  by (subst startDownload_retry.simps) simp

lemma triggerDownload_with_ok:
  assumes "encodeURIComponent url = Inr q"
  shows "fst (triggerDownload_with a b url title s) = Inr ()"
    and "trace (snd (triggerDownload_with a b url title s)) =
           trace s @ [Request (js ''/api/download?url='' @ q), Pause a]"
    and "timers (snd (triggerDownload_with a b url title s)) =
           timers s @ [(b, RemoveFrame (next_frame s))]"
    and "frames (snd (triggerDownload_with a b url title s)) =
           frames s @ [(next_frame s, js ''/api/download?url='' @ q)]"
    and "next_frame (snd (triggerDownload_with a b url title s)) = Suc (next_frame s)"
  using assms by (simp_all add: triggerDownload_with_def Let_def emit_def setTimeout_def)

lemma triggerDownload_with_fail:
  assumes "encodeURIComponent url = Inl e"
  shows "triggerDownload_with a b url title s = (Inl e, s)"
  using assms by (simp add: triggerDownload_with_def)

lemma retry_all_fail:
  assumes "\<And>t. fst (fetchVideoInfo (env 0) url t) = Inl e0"
    and "\<And>t. fst (fetchVideoInfo (env 1) url t) = Inl e1"
    and "\<And>t. fst (fetchVideoInfo (env 2) url t) = Inl e2"
  shows "fst (startDownload_retry env url 2 0 None s) = None"
    and "fst (snd (startDownload_retry env url 2 0 None s)) = Some e2"
    and "snd (snd (startDownload_retry env url 2 0 None s)) =
           s\<lparr>progress_hidden := False,
             progress_stage := js ''Retrying...'',
             progress_percent := show_nat 10 @ js ''%'',
             progress_fill := show_nat 10 @ js ''%'',
             trace := trace s @ info_requests url @ retry_events 2 @ info_requests url @
                      retry_events 1 @ info_requests url\<rparr>"
proof -
  have "startDownload_retry env url 2 0 None s =
          (None, Some e2,
           s\<lparr>progress_hidden := False,
             progress_stage := js ''Retrying...'',
             progress_percent := show_nat 10 @ js ''%'',
             progress_fill := show_nat 10 @ js ''%'',
             trace := trace s @ info_requests url @ retry_events 2 @ info_requests url @
                      retry_events 1 @ info_requests url\<rparr>)"
  proof -
    let ?between = "\<lambda>n t. sleep 1000 (showProgress (js ''Retrying...'') 10
                     (emit (ConsoleLog (js ''Retry attempt, '' @ show_int n @ js '' left...''))
                        (snd (fetchVideoInfo (env 0) url t))))"
    let ?s1 = "sleep 1000 (showProgress (js ''Retrying...'') 10
                     (emit (ConsoleLog (js ''Retry attempt, '' @ show_int 2 @ js '' left...''))
                        (snd (fetchVideoInfo (env 0) url s))))"
    let ?s2 = "sleep 1000 (showProgress (js ''Retrying...'') 10
                     (emit (ConsoleLog (js ''Retry attempt, '' @ show_int 1 @ js '' left...''))
                        (snd (fetchVideoInfo (env 1) url ?s1))))"
    let ?s3 = "snd (fetchVideoInfo (env 2) url ?s2)"
    have 1: "startDownload_retry env url 2 0 None s = startDownload_retry env url 1 1 (Some e0) ?s1"
      using retry_fail [of 2 env 0 url s e0 None] assms(1) by simp
    have 2: "startDownload_retry env url 1 1 (Some e0) ?s1 = startDownload_retry env url 0 2 (Some e1) ?s2"
      using retry_fail [of 1 env 1 url ?s1 e1 "Some e0"] assms(2) by (simp add: numeral_2_eq_2)
    have 3: "startDownload_retry env url 0 2 (Some e1) ?s2 = startDownload_retry env url (- 1) 3 (Some e2) ?s3"
      using retry_fail [of 0 env 2 url ?s2 e2 "Some e1"] assms(3) by (simp add: numeral_3_eq_3)
    have 4: "startDownload_retry env url (- 1) 3 (Some e2) ?s3 = (None, Some e2, ?s3)"
      by (rule retry_done) simp
    show ?thesis
      unfolding 1 2 3 4
      by (simp add: snd_fetchVideoInfo page_ops retry_events_def)
  qed
  then show "fst (startDownload_retry env url 2 0 None s) = None"
    and "fst (snd (startDownload_retry env url 2 0 None s)) = Some e2"
    and "snd (snd (startDownload_retry env url 2 0 None s)) =
           s\<lparr>progress_hidden := False,
             progress_stage := js ''Retrying...'',
             progress_percent := show_nat 10 @ js ''%'',
             progress_fill := show_nat 10 @ js ''%'',
             trace := trace s @ info_requests url @ retry_events 2 @ info_requests url @
                      retry_events 1 @ info_requests url\<rparr>"
    by simp_all
qed

lemma retry_ok0:
  assumes "\<And>t. fst (fetchVideoInfo (env 0) url t) = Inr info"
  shows "startDownload_retry env url 2 0 None s =
           (Some info, None, s\<lparr>trace := trace s @ info_requests url\<rparr>)"
  using retry_ok [of 2 env 0 url s info None] assms by (simp add: snd_fetchVideoInfo)

lemma retry_ok1:
  assumes "\<And>t. fst (fetchVideoInfo (env 0) url t) = Inl e0"
    and "\<And>t. fst (fetchVideoInfo (env 1) url t) = Inr info"
  shows "startDownload_retry env url 2 0 None s =
           (Some info, Some e0,
            s\<lparr>progress_hidden := False,
              progress_stage := js ''Retrying...'',
              progress_percent := show_nat 10 @ js ''%'',
              progress_fill := show_nat 10 @ js ''%'',
              trace := trace s @ info_requests url @ retry_events 2 @ info_requests url\<rparr>)"
proof -
  let ?s1 = "sleep 1000 (showProgress (js ''Retrying...'') 10
                   (emit (ConsoleLog (js ''Retry attempt, '' @ show_int 2 @ js '' left...''))
                      (snd (fetchVideoInfo (env 0) url s))))"
  have 1: "startDownload_retry env url 2 0 None s = startDownload_retry env url 1 1 (Some e0) ?s1"
    using retry_fail [of 2 env 0 url s e0 None] assms(1) by simp
  have 2: "startDownload_retry env url 1 1 (Some e0) ?s1 =
             (Some info, Some e0, snd (fetchVideoInfo (env 1) url ?s1))"
    using retry_ok [of 1 env 1 url ?s1 info "Some e0"] assms(2) by simp
  show ?thesis
    unfolding 1 2 by (simp add: snd_fetchVideoInfo page_ops retry_events_def)
qed

lemma retry_ok2:
  assumes "\<And>t. fst (fetchVideoInfo (env 0) url t) = Inl e0"
    and "\<And>t. fst (fetchVideoInfo (env 1) url t) = Inl e1"
    and "\<And>t. fst (fetchVideoInfo (env 2) url t) = Inr info"
  shows "startDownload_retry env url 2 0 None s =
           (Some info, Some e1,
            s\<lparr>progress_hidden := False,
              progress_stage := js ''Retrying...'',
              progress_percent := show_nat 10 @ js ''%'',
              progress_fill := show_nat 10 @ js ''%'',
              trace := trace s @ info_requests url @ retry_events 2 @ info_requests url @
                       retry_events 1 @ info_requests url\<rparr>)"
proof -
  let ?s1 = "sleep 1000 (showProgress (js ''Retrying...'') 10
                   (emit (ConsoleLog (js ''Retry attempt, '' @ show_int 2 @ js '' left...''))
                      (snd (fetchVideoInfo (env 0) url s))))"
  let ?s2 = "sleep 1000 (showProgress (js ''Retrying...'') 10
                   (emit (ConsoleLog (js ''Retry attempt, '' @ show_int 1 @ js '' left...''))
                      (snd (fetchVideoInfo (env 1) url ?s1))))"
  have 1: "startDownload_retry env url 2 0 None s = startDownload_retry env url 1 1 (Some e0) ?s1"
    using retry_fail [of 2 env 0 url s e0 None] assms(1) by simp
  have 2: "startDownload_retry env url 1 1 (Some e0) ?s1 = startDownload_retry env url 0 2 (Some e1) ?s2"
    using retry_fail [of 1 env 1 url ?s1 e1 "Some e0"] assms(2) by (simp add: numeral_2_eq_2)
  have 3: "startDownload_retry env url 0 2 (Some e1) ?s2 =
             (Some info, Some e1, snd (fetchVideoInfo (env 2) url ?s2))"
    using retry_ok [of 0 env 2 url ?s2 info "Some e1"] assms(3) by simp
  show ?thesis
    unfolding 1 2 3 by (simp add: snd_fetchVideoInfo page_ops retry_events_def)
qed

lemma present_and_download_ok:
  assumes "encodeURIComponent url = Inr q"
  shows "fst (present_and_download (triggerDownload_with a b) url info s) = Inr ()"
    and "trace (snd (present_and_download (triggerDownload_with a b) url info s)) =
           trace s @ download_events a q info"
    and "timers (snd (present_and_download (triggerDownload_with a b) url info s)) =
           timers s @ [(b, RemoveFrame (next_frame s)), (500, SuccessNotice), (4000, ResetForm)]"
    and "frames (snd (present_and_download (triggerDownload_with a b) url info s)) =
           frames s @ [(next_frame s, js ''/api/download?url='' @ q)]"
    and "status_hidden (snd (present_and_download (triggerDownload_with a b) url info s)) =
           (if js_gt (info_duration info) 900 then False else status_hidden s)"
    and "js_gt (info_duration info) 900 \<Longrightarrow>
           status_className (snd (present_and_download (triggerDownload_with a b) url info s)) = js ''status status--info'' \<and>
           status_title (snd (present_and_download (triggerDownload_with a b) url info s)) = js ''Long video detected'' \<and>
           status_message (snd (present_and_download (triggerDownload_with a b) url info s)) =
             js ''This video is '' @ formatDuration (info_duration info) @ js ''. Download may take a few minutes.''"
    and "progress_hidden (snd (present_and_download (triggerDownload_with a b) url info s)) = False"
    and "progress_stage (snd (present_and_download (triggerDownload_with a b) url info s)) = js ''Complete!''"
    and "songInfo_hidden (snd (present_and_download (triggerDownload_with a b) url info s)) = False"
    and "song_duration (snd (present_and_download (triggerDownload_with a b) url info s)) = formatDuration (info_duration info)"
    and "urlInput_value (snd (present_and_download (triggerDownload_with a b) url info s)) = urlInput_value s"
    and "next_frame (snd (present_and_download (triggerDownload_with a b) url info s)) = Suc (next_frame s)"
  using assms
  by (simp_all add: present_and_download_def triggerDownload_with_def Let_def page_ops
        download_events_def long_video_events_def js_def)

lemma attempt_cases:
  "(\<exists>info. \<forall>t. fst (fetchVideoInfo outcome url t) = Inr info) \<or>
   (\<exists>e. \<forall>t. fst (fetchVideoInfo outcome url t) = Inl e)"
proof (cases "fst (fetchVideoInfo outcome url s)")
  case (Inl e)
  then have "\<forall>t. fst (fetchVideoInfo outcome url t) = Inl e"
    using fst_fetchVideoInfo [of outcome url _ s] by simp
  then show ?thesis by blast
next
  case (Inr info)
  then have "\<forall>t. fst (fetchVideoInfo outcome url t) = Inr info"
    using fst_fetchVideoInfo [of outcome url _ s] by simp
  then show ?thesis by blast
qed

text \<open>The ways the retry loop can end: it touches the progress panel and the trace only.\<close>

lemma retry_outcomes:
  "(\<exists>info le ev. (\<exists>q. encodeURIComponent url = Inr q) \<and>
      startDownload_retry env url 2 0 None s = (Some info, le, s\<lparr>trace := trace s @ ev\<rparr>)) \<or>
   (\<exists>info le ev. (\<exists>q. encodeURIComponent url = Inr q) \<and>
      startDownload_retry env url 2 0 None s =
        (Some info, le,
         s\<lparr>progress_hidden := False, progress_stage := js ''Retrying...'',
           progress_percent := show_nat 10 @ js ''%'', progress_fill := show_nat 10 @ js ''%'',
           trace := trace s @ ev\<rparr>)) \<or>
   (\<exists>e ev.
      startDownload_retry env url 2 0 None s =
        (None, Some e,
         s\<lparr>progress_hidden := False, progress_stage := js ''Retrying...'',
           progress_percent := show_nat 10 @ js ''%'', progress_fill := show_nat 10 @ js ''%'',
           trace := trace s @ ev\<rparr>))"
proof -
  consider (ok0) info where "\<And>t. fst (fetchVideoInfo (env 0) url t) = Inr info"
    | (ok1) e0 info where "\<And>t. fst (fetchVideoInfo (env 0) url t) = Inl e0"
        "\<And>t. fst (fetchVideoInfo (env 1) url t) = Inr info"
    | (ok2) e0 e1 info where "\<And>t. fst (fetchVideoInfo (env 0) url t) = Inl e0"
        "\<And>t. fst (fetchVideoInfo (env 1) url t) = Inl e1"
        "\<And>t. fst (fetchVideoInfo (env 2) url t) = Inr info"
    | (fail) e0 e1 e2 where "\<And>t. fst (fetchVideoInfo (env 0) url t) = Inl e0"
        "\<And>t. fst (fetchVideoInfo (env 1) url t) = Inl e1"
        "\<And>t. fst (fetchVideoInfo (env 2) url t) = Inl e2"
    using attempt_cases [of "env 0" url] attempt_cases [of "env 1" url] attempt_cases [of "env 2" url]
    by blast
  then show ?thesis
  proof cases
    case ok0
    from fetchVideoInfo_Inr_encodable [OF ok0] have "\<exists>q. encodeURIComponent url = Inr q" .
    with retry_ok0 [of env url info s, OF ok0] show ?thesis by blast
  next
    case ok1
    from fetchVideoInfo_Inr_encodable [OF ok1(2)] have "\<exists>q. encodeURIComponent url = Inr q" .
    with retry_ok1 [of env url e0 info s, OF ok1] show ?thesis by blast
  next
    case ok2
    from fetchVideoInfo_Inr_encodable [OF ok2(3)] have "\<exists>q. encodeURIComponent url = Inr q" .
    with retry_ok2 [of env url e0 e1 info s, OF ok2] show ?thesis by blast
  next
    case fail
    from retry_all_fail [of env url e0 e1 e2 s, OF fail]
    have "startDownload_retry env url 2 0 None s =
        (None, Some e2,
         s\<lparr>progress_hidden := False, progress_stage := js ''Retrying...'',
           progress_percent := show_nat 10 @ js ''%'', progress_fill := show_nat 10 @ js ''%'',
           trace := trace s @ info_requests url @ retry_events 2 @ info_requests url @
                      retry_events 1 @ info_requests url\<rparr>)"
      by (metis prod.collapse)
    then show ?thesis by blast
  qed
qed

text \<open>What the loop leaves alone, and that a delivered record means the URL was encodable.\<close>

lemma retry_frame:
  assumes "startDownload_retry env url 2 0 None s = (r, le, t)"
  shows "\<exists>ph st pc pf ev.
           t = s\<lparr>progress_hidden := ph, progress_stage := st, progress_percent := pc,
                 progress_fill := pf, trace := trace s @ ev\<rparr>"
    and "r = Some info \<Longrightarrow> \<exists>q. encodeURIComponent url = Inr q"
proof -
  have id: "\<And>ev. s\<lparr>trace := trace s @ ev\<rparr> =
      s\<lparr>progress_hidden := progress_hidden s, progress_stage := progress_stage s,
        progress_percent := progress_percent s, progress_fill := progress_fill s,
        trace := trace s @ ev\<rparr>"
    by simp
  from retry_outcomes [of url env s] assms
  show "\<exists>ph st pc pf ev.
           t = s\<lparr>progress_hidden := ph, progress_stage := st, progress_percent := pc,
                 progress_fill := pf, trace := trace s @ ev\<rparr>"
    by (elim disjE exE conjE) (simp only: prod.inject, (elim conjE)?, (metis id | blast))+
  from retry_outcomes [of url env s] assms
  show "r = Some info \<Longrightarrow> \<exists>q. encodeURIComponent url = Inr q"
    by (elim disjE exE conjE) simp_all
qed

lemma startDownload_failed:
  assumes "startDownload_retry env url 2 0 None
             (showProgress (js ''Fetching video info...'') 5
               (hideSongInfo (hideStatus (setProcessingState True s)))) = (None, Some e, s1)"
  shows "startDownload env url s =
           setProcessingState False
             (hideSongInfo (hideProgress
               (showError (js ''Download failed'') (message_or_retry e) (emit (ConsoleError e) s1))))"
  using assms by (simp add: startDownload_def startDownload_try_def Let_def)

lemma startDownload_succeeded:
  assumes "startDownload_retry env url 2 0 None
             (showProgress (js ''Fetching video info...'') 5
               (hideSongInfo (hideStatus (setProcessingState True s)))) = (Some info, le, s1)"
    and "encodeURIComponent url = Inr q"
  shows "startDownload env url s =
           setProcessingState False (snd (present_and_download triggerDownload url info s1))"
proof -
  have "fst (present_and_download triggerDownload url info s1) = Inr ()"
    unfolding triggerDownload_def by (rule present_and_download_ok(1) [OF assms(2)])
  then obtain s2 where "present_and_download triggerDownload url info s1 = (Inr (), s2)"
    by (cases "present_and_download triggerDownload url info s1") auto
  with assms(1) show ?thesis
    by (simp add: startDownload_def startDownload_try_def Let_def)
qed

lemma encode_sample_url: "encodeURIComponent sample_url = Inr (js ''https%3A%2F%2Fyoutu.be%2Fabc123'')"
  by (simp add: sample_url_def js_def uri_unreserved_def low_surrogate_def high_surrogate_def
        percent_def utf8_def hex_digit_def)

lemma sample_attempt:
  "fst (fetchVideoInfo (env_recovering n d k) sample_url t) =
     (if k < n then Inl offline else Inr (sample_info d))"
  by (simp add: fetchVideoInfo_def encode_sample_url env_recovering_def Let_def)

lemma retry_env_cong:
  assumes "env 0 = env' 0" "env 1 = env' 1" "env 2 = env' 2"
  shows "startDownload_retry env url 2 0 None s = startDownload_retry env' url 2 0 None s"
proof -
  consider (ok0) info where "\<And>t. fst (fetchVideoInfo (env 0) url t) = Inr info"
    | (ok1) e0 info where "\<And>t. fst (fetchVideoInfo (env 0) url t) = Inl e0"
        "\<And>t. fst (fetchVideoInfo (env 1) url t) = Inr info"
    | (ok2) e0 e1 info where "\<And>t. fst (fetchVideoInfo (env 0) url t) = Inl e0"
        "\<And>t. fst (fetchVideoInfo (env 1) url t) = Inl e1"
        "\<And>t. fst (fetchVideoInfo (env 2) url t) = Inr info"
    | (fail) e0 e1 e2 where "\<And>t. fst (fetchVideoInfo (env 0) url t) = Inl e0"
        "\<And>t. fst (fetchVideoInfo (env 1) url t) = Inl e1"
        "\<And>t. fst (fetchVideoInfo (env 2) url t) = Inl e2"
    using attempt_cases [of "env 0" url] attempt_cases [of "env 1" url] attempt_cases [of "env 2" url]
    by blast
  then show ?thesis
  proof cases
    case ok0
    then have "\<And>t. fst (fetchVideoInfo (env' 0) url t) = Inr info" using assms by simp
    from retry_ok0 [of env url info s, OF ok0] retry_ok0 [of env' url info s, OF this]
    show ?thesis by simp
  next
    case ok1
    then have "\<And>t. fst (fetchVideoInfo (env' 0) url t) = Inl e0"
      "\<And>t. fst (fetchVideoInfo (env' 1) url t) = Inr info" using assms by simp_all
    from retry_ok1 [of env url e0 info s, OF ok1] retry_ok1 [of env' url e0 info s, OF this]
    show ?thesis by simp
  next
    case ok2
    then have "\<And>t. fst (fetchVideoInfo (env' 0) url t) = Inl e0"
      "\<And>t. fst (fetchVideoInfo (env' 1) url t) = Inl e1"
      "\<And>t. fst (fetchVideoInfo (env' 2) url t) = Inr info" using assms by simp_all
    from retry_ok2 [of env url e0 e1 info s, OF ok2] retry_ok2 [of env' url e0 e1 info s, OF this]
    show ?thesis by simp
  next
    case fail
    then have f': "\<And>t. fst (fetchVideoInfo (env' 0) url t) = Inl e0"
      "\<And>t. fst (fetchVideoInfo (env' 1) url t) = Inl e1"
      "\<And>t. fst (fetchVideoInfo (env' 2) url t) = Inl e2" using assms by simp_all
    show ?thesis
      using retry_all_fail [of env url e0 e1 e2 s, OF fail] retry_all_fail [of env' url e0 e1 e2 s, OF f']
      by (metis prod.collapse)
  qed
qed

lemma startDownload_all_fail:
  assumes "\<And>t. fst (fetchVideoInfo (env 0) url t) = Inl e0"
    and "\<And>t. fst (fetchVideoInfo (env 1) url t) = Inl e1"
    and "\<And>t. fst (fetchVideoInfo (env 2) url t) = Inl e2"
  shows "trace (startDownload env url s) =
           trace s @ [Progress (js ''Fetching video info...'') 5] @
           info_requests url @ retry_events 2 @ info_requests url @ retry_events 1 @
           info_requests url @
           [ConsoleError e2, Status (js ''error'') (js ''Download failed'') (message_or_retry e2)]"
    and "status_className (startDownload env url s) = js ''status status--error''"
    and "status_title (startDownload env url s) = js ''Download failed''"
    and "status_message (startDownload env url s) = message_or_retry e2"
    and "status_hidden (startDownload env url s) = False"
    and "progress_hidden (startDownload env url s) = True"
    and "songInfo_hidden (startDownload env url s) = True"
    and "timers (startDownload env url s) = timers s"
    and "frames (startDownload env url s) = frames s"
proof -
  let ?s0 = "showProgress (js ''Fetching video info...'') 5
               (hideSongInfo (hideStatus (setProcessingState True s)))"
  from retry_all_fail [of env url e0 e1 e2 ?s0, OF assms]
  have "startDownload_retry env url 2 0 None ?s0 =
          (None, Some e2, ?s0\<lparr>progress_hidden := False,
             progress_stage := js ''Retrying...'',
             progress_percent := show_nat 10 @ js ''%'',
             progress_fill := show_nat 10 @ js ''%'',
             trace := trace ?s0 @ info_requests url @ retry_events 2 @ info_requests url @
                      retry_events 1 @ info_requests url\<rparr>)"
    by (metis prod.collapse)
  note eq = startDownload_failed [OF this]
  show "trace (startDownload env url s) =
           trace s @ [Progress (js ''Fetching video info...'') 5] @
           info_requests url @ retry_events 2 @ info_requests url @ retry_events 1 @
           info_requests url @
           [ConsoleError e2, Status (js ''error'') (js ''Download failed'') (message_or_retry e2)]"
    and "status_className (startDownload env url s) = js ''status status--error''"
    and "status_title (startDownload env url s) = js ''Download failed''"
    and "status_message (startDownload env url s) = message_or_retry e2"
    and "status_hidden (startDownload env url s) = False"
    and "progress_hidden (startDownload env url s) = True"
    and "songInfo_hidden (startDownload env url s) = True"
    and "timers (startDownload env url s) = timers s"
    and "frames (startDownload env url s) = frames s"
    unfolding eq by (simp_all add: page_ops js_def)
qed

lemma startDownload_success_fields:
  assumes "startDownload_retry env url 2 0 None
             (showProgress (js ''Fetching video info...'') 5
               (hideSongInfo (hideStatus (setProcessingState True s)))) = (Some info, le, s1)"
    and "encodeURIComponent url = Inr q"
  shows "trace (startDownload env url s) = trace s1 @ download_events 1500 q info"
    and "timers (startDownload env url s) =
           timers s1 @ [(120000, RemoveFrame (next_frame s1)), (500, SuccessNotice), (4000, ResetForm)]"
    and "frames (startDownload env url s) = frames s1 @ [(next_frame s1, js ''/api/download?url='' @ q)]"
    and "status_hidden (startDownload env url s) =
           (if js_gt (info_duration info) 900 then False else status_hidden s1)"
    and "js_gt (info_duration info) 900 \<Longrightarrow>
           status_className (startDownload env url s) = js ''status status--info'' \<and>
           status_title (startDownload env url s) = js ''Long video detected'' \<and>
           status_message (startDownload env url s) =
             js ''This video is '' @ formatDuration (info_duration info) @ js ''. Download may take a few minutes.''"
    and "progress_hidden (startDownload env url s) = False"
    and "progress_stage (startDownload env url s) = js ''Complete!''"
    and "songInfo_hidden (startDownload env url s) = False"
  unfolding startDownload_succeeded [OF assms] triggerDownload_def
  using present_and_download_ok [OF assms(2), where a = 1500 and b = 120000 and info = info and s = s1]
  by (simp_all add: setProcessingState_def)

lemma startDownload_ok0:
  assumes "\<And>t. fst (fetchVideoInfo (env 0) url t) = Inr info"
    and "encodeURIComponent url = Inr q"
  shows "trace (startDownload env url s) =
           trace s @ [Progress (js ''Fetching video info...'') 5] @ info_requests url @
           download_events 1500 q info"
    and "status_hidden (startDownload env url s) = (\<not> js_gt (info_duration info) 900)"
    and "timers (startDownload env url s) =
           timers s @ [(120000, RemoveFrame (next_frame s)), (500, SuccessNotice), (4000, ResetForm)]"
proof -
  let ?s0 = "showProgress (js ''Fetching video info...'') 5
               (hideSongInfo (hideStatus (setProcessingState True s)))"
  note f = startDownload_success_fields [OF retry_ok0 [of env url info ?s0, OF assms(1)] assms(2)]
  show "trace (startDownload env url s) =
           trace s @ [Progress (js ''Fetching video info...'') 5] @ info_requests url @
           download_events 1500 q info"
    unfolding f(1) by (simp add: page_ops)
  show "status_hidden (startDownload env url s) = (\<not> js_gt (info_duration info) 900)"
    unfolding f(4) by (simp add: page_ops)
  show "timers (startDownload env url s) =
           timers s @ [(120000, RemoveFrame (next_frame s)), (500, SuccessNotice), (4000, ResetForm)]"
    unfolding f(2) by (simp add: page_ops)
qed

lemma startDownload_ok1:
  assumes "\<And>t. fst (fetchVideoInfo (env 0) url t) = Inl e0"
    and "\<And>t. fst (fetchVideoInfo (env 1) url t) = Inr info"
    and "encodeURIComponent url = Inr q"
  shows "trace (startDownload env url s) =
           trace s @ [Progress (js ''Fetching video info...'') 5] @ info_requests url @
           retry_events 2 @ info_requests url @ download_events 1500 q info"
    and "status_hidden (startDownload env url s) = (\<not> js_gt (info_duration info) 900)"
    and "timers (startDownload env url s) =
           timers s @ [(120000, RemoveFrame (next_frame s)), (500, SuccessNotice), (4000, ResetForm)]"
proof -
  let ?s0 = "showProgress (js ''Fetching video info...'') 5
               (hideSongInfo (hideStatus (setProcessingState True s)))"
  note f = startDownload_success_fields [OF retry_ok1 [of env url e0 info ?s0, OF assms(1,2)] assms(3)]
  show "trace (startDownload env url s) =
           trace s @ [Progress (js ''Fetching video info...'') 5] @ info_requests url @
           retry_events 2 @ info_requests url @ download_events 1500 q info"
    unfolding f(1) by (simp add: page_ops)
  show "status_hidden (startDownload env url s) = (\<not> js_gt (info_duration info) 900)"
    unfolding f(4) by (simp add: page_ops)
  show "timers (startDownload env url s) =
           timers s @ [(120000, RemoveFrame (next_frame s)), (500, SuccessNotice), (4000, ResetForm)]"
    unfolding f(2) by (simp add: page_ops)
qed

lemma startDownload_ok2:
  assumes "\<And>t. fst (fetchVideoInfo (env 0) url t) = Inl e0"
    and "\<And>t. fst (fetchVideoInfo (env 1) url t) = Inl e1"
    and "\<And>t. fst (fetchVideoInfo (env 2) url t) = Inr info"
    and "encodeURIComponent url = Inr q"
  shows "trace (startDownload env url s) =
           trace s @ [Progress (js ''Fetching video info...'') 5] @ info_requests url @
           retry_events 2 @ info_requests url @ retry_events 1 @ info_requests url @
           download_events 1500 q info"
    and "status_hidden (startDownload env url s) = (\<not> js_gt (info_duration info) 900)"
    and "timers (startDownload env url s) =
           timers s @ [(120000, RemoveFrame (next_frame s)), (500, SuccessNotice), (4000, ResetForm)]"
proof -
  let ?s0 = "showProgress (js ''Fetching video info...'') 5
               (hideSongInfo (hideStatus (setProcessingState True s)))"
  note f = startDownload_success_fields [OF retry_ok2 [of env url e0 e1 info ?s0, OF assms(1,2,3)] assms(4)]
  show "trace (startDownload env url s) =
           trace s @ [Progress (js ''Fetching video info...'') 5] @ info_requests url @
           retry_events 2 @ info_requests url @ retry_events 1 @ info_requests url @
           download_events 1500 q info"
    unfolding f(1) by (simp add: page_ops)
  show "status_hidden (startDownload env url s) = (\<not> js_gt (info_duration info) 900)"
    unfolding f(4) by (simp add: page_ops)
  show "timers (startDownload env url s) =
           timers s @ [(120000, RemoveFrame (next_frame s)), (500, SuccessNotice), (4000, ResetForm)]"
    unfolding f(2) by (simp add: page_ops)
qed

lemma startDownload_env_cong:
  assumes "env 0 = env' 0" "env 1 = env' 1" "env 2 = env' 2"
  shows "startDownload env url s = startDownload env' url s"
  by (simp add: startDownload_def startDownload_try_def retry_env_cong [OF assms])

lemma js_gt_Num: "js_gt (Num x) k \<longleftrightarrow> k < x"
  by (simp add: js_gt_def to_number_def)

lemma startDownload_keeps_input: "urlInput_value (startDownload env url s) = urlInput_value s"
proof -
  let ?s0 = "showProgress (js ''Fetching video info...'') 5
               (hideSongInfo (hideStatus (setProcessingState True s)))"
  obtain r le t where run: "startDownload_retry env url 2 0 None ?s0 = (r, le, t)"
    by (cases "startDownload_retry env url 2 0 None ?s0") auto
  from retry_frame(1) [OF run] have t: "urlInput_value t = urlInput_value s"
    by (auto simp: page_ops)
  show ?thesis
  proof (cases r)
    case None
    from retry_outcomes [of url env ?s0] run None obtain e where "le = Some e" by auto
    with run None have "startDownload env url s =
           setProcessingState False
             (hideSongInfo (hideProgress
               (showError (js ''Download failed'') (message_or_retry e) (emit (ConsoleError e) t))))"
      by (simp add: startDownload_failed)
    with t show ?thesis by (simp add: page_ops)
  next
    case (Some info)
    from retry_frame(2) [OF run Some] obtain q where q: "encodeURIComponent url = Inr q" by blast
    from run Some have "startDownload env url s =
           setProcessingState False (snd (present_and_download triggerDownload url info t))"
      by (simp add: startDownload_succeeded [OF _ q])
    with t present_and_download_ok(11) [OF q, of 1500 120000 info t] show ?thesis
      by (simp add: setProcessingState_def triggerDownload_def)
  qed
qed

lemma startDownload_trace_begins:
  "\<exists>rest. trace (startDownload env url s) = trace s @ Progress (js ''Fetching video info...'') 5 # rest"
proof -
  let ?s0 = "showProgress (js ''Fetching video info...'') 5
               (hideSongInfo (hideStatus (setProcessingState True s)))"
  obtain r le t where run: "startDownload_retry env url 2 0 None ?s0 = (r, le, t)"
    by (cases "startDownload_retry env url 2 0 None ?s0") auto
  from retry_frame(1) [OF run] obtain ev where t: "trace t = trace ?s0 @ ev"
    by auto
  then have t': "trace t = trace s @ Progress (js ''Fetching video info...'') 5 # ev"
    by (simp add: page_ops)
  show ?thesis
  proof (cases r)
    case None
    from retry_outcomes [of url env ?s0] run None obtain e where "le = Some e" by auto
    with run None have "startDownload env url s =
           setProcessingState False
             (hideSongInfo (hideProgress
               (showError (js ''Download failed'') (message_or_retry e) (emit (ConsoleError e) t))))"
      by (simp add: startDownload_failed)
    with t' show ?thesis by (simp add: page_ops)
  next
    case (Some info)
    from retry_frame(2) [OF run Some] obtain q where q: "encodeURIComponent url = Inr q" by blast
    from run Some have "startDownload env url s =
           setProcessingState False (snd (present_and_download triggerDownload url info t))"
      by (simp add: startDownload_succeeded [OF _ q])
    with t' present_and_download_ok(2) [OF q, of 1500 120000 info t] show ?thesis
      by (simp add: setProcessingState_def triggerDownload_def)
  qed
qed

lemma startDownload_flags:
  "isProcessing (startDownload env url s) = False"
  "urlInput_disabled (startDownload env url s) = False"
  "downloadBtn_disabled (startDownload env url s) = False"
  "downloadBtn_loading (startDownload env url s) = False"
  by (simp_all add: startDownload_def setProcessingState_def Let_def)

lemma snd_fetchVideoInfo_p0:
  "snd (fetchVideoInfo_p0 outcome url s) = s\<lparr>trace := trace s @ info_requests url\<rparr>"
  by (simp add: fetchVideoInfo_p0_def info_requests_def emit_def Let_def
           split: sum.splits fetch_outcome.splits)

lemma fetchVideoInfo_p0_Inr_encodable:
  "fst (fetchVideoInfo_p0 outcome url s) = Inr info \<Longrightarrow> \<exists>q. encodeURIComponent url = Inr q"
  by (cases "encodeURIComponent url") (simp_all add: fetchVideoInfo_p0_def)

lemma startDownload_p0_failed:
  assumes "fst (fetchVideoInfo_p0 (env 0) url
             (showProgress (js ''Fetching video info...'') 5
               (hideSongInfo (hideStatus (setProcessingState True s))))) = Inl e"
  shows "startDownload_p0 env url s =
           setProcessingState False
             (hideSongInfo (hideProgress
               (showError (js ''Download failed'') (message_or_retry e)
                 (snd (fetchVideoInfo_p0 (env 0) url
                   (showProgress (js ''Fetching video info...'') 5
                     (hideSongInfo (hideStatus (setProcessingState True s)))))))))"
  using assms
  by (cases "fetchVideoInfo_p0 (env 0) url
             (showProgress (js ''Fetching video info...'') 5
               (hideSongInfo (hideStatus (setProcessingState True s))))")
     (simp add: startDownload_p0_def startDownload_try_p0_def Let_def)

lemma startDownload_p0_succeeded:
  assumes "fst (fetchVideoInfo_p0 (env 0) url
             (showProgress (js ''Fetching video info...'') 5
               (hideSongInfo (hideStatus (setProcessingState True s))))) = Inr info"
  shows "startDownload_p0 env url s =
           setProcessingState False
             (snd (present_and_download triggerDownload_p0 url info
               (snd (fetchVideoInfo_p0 (env 0) url
                 (showProgress (js ''Fetching video info...'') 5
                   (hideSongInfo (hideStatus (setProcessingState True s))))))))"
proof -
  let ?s0 = "showProgress (js ''Fetching video info...'') 5
               (hideSongInfo (hideStatus (setProcessingState True s)))"
  from fetchVideoInfo_p0_Inr_encodable [OF assms] obtain q where q: "encodeURIComponent url = Inr q"
    by blast
  have "fst (present_and_download triggerDownload_p0 url info (snd (fetchVideoInfo_p0 (env 0) url ?s0))) = Inr ()"
    unfolding triggerDownload_p0_def by (rule present_and_download_ok(1) [OF q])
  then obtain t where
    "present_and_download triggerDownload_p0 url info (snd (fetchVideoInfo_p0 (env 0) url ?s0)) = (Inr (), t)"
    by (cases "present_and_download triggerDownload_p0 url info (snd (fetchVideoInfo_p0 (env 0) url ?s0))") auto
  with assms show ?thesis
    by (cases "fetchVideoInfo_p0 (env 0) url ?s0")
       (simp add: startDownload_p0_def startDownload_try_p0_def Let_def)
qed

lemma startDownload_p0_keeps_input: "urlInput_value (startDownload_p0 env url s) = urlInput_value s"
proof -
  let ?s0 = "showProgress (js ''Fetching video info...'') 5
               (hideSongInfo (hideStatus (setProcessingState True s)))"
  show ?thesis
  proof (cases "fst (fetchVideoInfo_p0 (env 0) url ?s0)")
    case (Inl e)
    show ?thesis
      unfolding startDownload_p0_failed [of env url s e, OF Inl] by (simp add: snd_fetchVideoInfo_p0 page_ops)
  next
    case (Inr info)
    from fetchVideoInfo_p0_Inr_encodable [OF Inr] obtain q where q: "encodeURIComponent url = Inr q"
      by blast
    show ?thesis
      unfolding startDownload_p0_succeeded [of env url s info, OF Inr] triggerDownload_p0_def
      using present_and_download_ok(11) [OF q, of 1000 60000 info]
      by (simp add: snd_fetchVideoInfo_p0 page_ops)
  qed
qed

lemma startDownload_p0_trace_begins:
  "\<exists>rest. trace (startDownload_p0 env url s) = trace s @ Progress (js ''Fetching video info...'') 5 # rest"
proof -
  let ?s0 = "showProgress (js ''Fetching video info...'') 5
               (hideSongInfo (hideStatus (setProcessingState True s)))"
  show ?thesis
  proof (cases "fst (fetchVideoInfo_p0 (env 0) url ?s0)")
    case (Inl e)
    show ?thesis
      unfolding startDownload_p0_failed [of env url s e, OF Inl] by (simp add: snd_fetchVideoInfo_p0 page_ops)
  next
    case (Inr info)
    from fetchVideoInfo_p0_Inr_encodable [OF Inr] obtain q where q: "encodeURIComponent url = Inr q"
      by blast
    show ?thesis
      unfolding startDownload_p0_succeeded [of env url s info, OF Inr] triggerDownload_p0_def
      using present_and_download_ok(2) [OF q, of 1000 60000 info]
      by (simp add: snd_fetchVideoInfo_p0 page_ops)
  qed
qed

lemma startDownload_p0_flags:
  "isProcessing (startDownload_p0 env url s) = False"
  "urlInput_disabled (startDownload_p0 env url s) = False"
  "downloadBtn_disabled (startDownload_p0 env url s) = False"
  "downloadBtn_loading (startDownload_p0 env url s) = False"
  by (simp_all add: startDownload_p0_def setProcessingState_def Let_def)

lemma trim_sample_url: "trim sample_url = sample_url"
  by (simp add: trim_def sample_url_def js_def is_space_def)

lemma sample_url_valid: "validateUrl sample_url \<and> validateUrl_p0 sample_url \<and> sample_url \<noteq> []"
  by code_simp

lemma formatDuration_1000: "formatDuration (Num 1000) = js ''16:40''"
  by code_simp

lemma startDownload_try_Inl:
  assumes "fst (startDownload_try env url s) = Inl e"
  shows "fst (startDownload_retry env url 2 0 None s) = None"
    and "fst (snd (startDownload_retry env url 2 0 None s)) = Some e"
proof -
  obtain r le t where run: "startDownload_retry env url 2 0 None s = (r, le, t)"
    by (cases "startDownload_retry env url 2 0 None s") auto
  have "r = None \<and> le = Some e"
  proof (cases r)
    case None
    from retry_outcomes [of url env s] run None obtain e' where "le = Some e'" by auto
    with run None assms show ?thesis by (simp add: startDownload_try_def)
  next
    case (Some info)
    from retry_frame(2) [OF run Some] obtain q where q: "encodeURIComponent url = Inr q" by blast
    have "fst (present_and_download triggerDownload url info t) = Inr ()"
      unfolding triggerDownload_def by (rule present_and_download_ok(1) [OF q])
    with run Some assms show ?thesis by (simp add: startDownload_try_def)
  qed
  with run show "fst (startDownload_retry env url 2 0 None s) = None"
    and "fst (snd (startDownload_retry env url 2 0 None s)) = Some e" by simp_all
qed

lemma startDownload_try_p0_Inl:
  assumes "fst (startDownload_try_p0 env url s) = Inl e"
  shows "fst (fetchVideoInfo_p0 (env 0) url s) = Inl e"
proof (cases "fetchVideoInfo_p0 (env 0) url s")
  case (Pair a t)
  show ?thesis
  proof (cases a)
    case (Inl e')
    with Pair assms show ?thesis by (simp add: startDownload_try_p0_def)
  next
    case (Inr info)
    with Pair have "fst (fetchVideoInfo_p0 (env 0) url s) = Inr info" by simp
    from fetchVideoInfo_p0_Inr_encodable [OF this] obtain q where q: "encodeURIComponent url = Inr q"
      by blast
    have "fst (present_and_download triggerDownload_p0 url info t) = Inr ()"
      unfolding triggerDownload_p0_def by (rule present_and_download_ok(1) [OF q])
    with Pair Inr assms show ?thesis by (simp add: startDownload_try_p0_def)
  qed
qed

lemma encode_lone_surrogate: "encodeURIComponent (js ''youtu.be/'' @ [55296]) = Inl URI_malformed"
  by (simp add: js_def uri_unreserved_def low_surrogate_def high_surrogate_def)

lemma startDownload_try_offline:
  "fst (startDownload_try (env_recovering 3 d) sample_url s) = Inl offline"
proof -
  have f: "\<And>k t. k < 3 \<Longrightarrow> fst (fetchVideoInfo (env_recovering 3 d k) sample_url t) = Inl offline"
    by (simp add: sample_attempt)
  note r = retry_all_fail [of "env_recovering 3 d" sample_url offline offline offline s,
      OF f f f, simplified]
  show ?thesis
    using r(1,2)
    by (cases "startDownload_retry (env_recovering 3 d) sample_url 2 0 None s")
       (auto simp: startDownload_try_def)
qed

lemma startDownload_try_p0_offline:
  "fst (startDownload_try_p0 (env_recovering 3 d) sample_url s) = Inl offline"
  by (simp add: startDownload_try_p0_def fetchVideoInfo_p0_def encode_sample_url
        env_recovering_def Let_def)

lemma resetForm_eq:
  "resetForm s =
     s\<lparr>status_hidden := True, progress_hidden := True, progress_fill := js ''0%'',
       songInfo_hidden := True, urlInput_error := False, inputError_visible := False,
       inputHint_display := []\<rparr>"
  by (simp add: page_ops)

lemma run_timer_keeps_input: "urlInput_value (run_timer t s) = urlInput_value s"
  by (cases t) (simp_all add: page_ops)

lemma trim_blank: "trim (js ''   '') = []"
  by (simp add: trim_def js_def is_space_def)

lemma vimeo_rejected:
  "trim (js ''https://vimeo.com/123'') = js ''https://vimeo.com/123'' \<and>
   js ''https://vimeo.com/123'' \<noteq> [] \<and>
   \<not> validateUrl (js ''https://vimeo.com/123'') \<and>
   \<not> validateUrl_p0 (js ''https://vimeo.com/123'')"
proof -
  have "trim (js ''https://vimeo.com/123'') = js ''https://vimeo.com/123''"
    by (simp add: trim_def js_def is_space_def)
  moreover have "js ''https://vimeo.com/123'' \<noteq> []" by (simp add: js_def)
  moreover have "\<not> validateUrl (js ''https://vimeo.com/123'')" by code_simp
  moreover have "\<not> validateUrl_p0 (js ''https://vimeo.com/123'')" by code_simp
  ultimately show ?thesis by blast
qed

lemma fetchVideoInfo_results:
  assumes "encodeURIComponent url = Inr q"
  shows "fst (fetchVideoInfo (NetworkFailure e) url s) = Inl e"
    and "fst (fetchVideoInfo (Response ok (Inl e)) url s) = Inl (Error (js ''Server error. Please try again.''))"
    and "fst (fetchVideoInfo (Response False (Inr d)) url s) =
           Inl (Error (or_default (info_error d) (js ''Failed to fetch video info'')))"
    and "fst (fetchVideoInfo (Response True (Inr d)) url s) = Inr d"
  using assms by (simp_all add: fetchVideoInfo_def Let_def)

lemma fetchVideoInfo_p0_results:
  assumes "encodeURIComponent url = Inr q"
  shows "fst (fetchVideoInfo_p0 (NetworkFailure e) url s) = Inl e"
    and "fst (fetchVideoInfo_p0 (Response ok (Inl e)) url s) = Inl e"
    and "fst (fetchVideoInfo_p0 (Response False (Inr d)) url s) =
           Inl (Error (or_default (info_error d) (js ''Failed to fetch video info'')))"
    and "fst (fetchVideoInfo_p0 (Response True (Inr d)) url s) = Inr d"
  using assms by (simp_all add: fetchVideoInfo_p0_def Let_def)

lemma startDownload_p0_error_message:
  assumes "encodeURIComponent url = Inr q"
    and "\<And>t. fst (fetchVideoInfo_p0 (env 0) url t) = Inl e"
  shows "status_message (startDownload_p0 env url s) = message_or_retry e"
    and "status_className (startDownload_p0 env url s) = js ''status status--error''"
    and "isProcessing (startDownload_p0 env url s) = False"
  unfolding startDownload_p0_failed [of env url s e, OF assms(2)]
  by (simp_all add: snd_fetchVideoInfo_p0 page_ops js_def)

text \<open>A URL that cannot be encoded fails in the fetch stage, before any request.\<close>

lemma fetch_unencodable:
  assumes "encodeURIComponent url = Inl e"
  shows "fst (fetchVideoInfo outcome url t) = Inl e"
    and "fst (fetchVideoInfo_p0 outcome url t) = Inl e"
    and "info_requests url = []"
  using assms by (simp_all add: fetchVideoInfo_def fetchVideoInfo_p0_def info_requests_def)

lemma startDownload_p0_failed_frame:
  assumes "\<And>t. fst (fetchVideoInfo_p0 (env 0) url t) = Inl e"
  shows "frames (startDownload_p0 env url s) = frames s"
    and "timers (startDownload_p0 env url s) = timers s"
    and "status_message (startDownload_p0 env url s) = message_or_retry e"
  unfolding startDownload_p0_failed [of env url s e, OF assms]
  by (simp_all add: snd_fetchVideoInfo_p0 page_ops)

section \<open>Lemmas: file names\<close>


lemma collapse_spaces_head:
  "\<not> is_space c \<Longrightarrow> collapse_spaces (c # cs) = c # collapse_spaces cs"
  by simp







































section \<open>Lemmas: durations\<close>







section \<open>The claims\<close>

text \<open>
  C1. The specification says that \<^verbatim>\<open>validate\<close> returns true iff the trimmed text matches
  one of the allowed YouTube URL shapes (watch, shorts, embed, the short link, the music
  subdomain), in any letter case and with or without scheme and \<^verbatim>\<open>www.\<close>, and lists four
  texts it accepts and three it rejects.

  As stated this fails for \<^verbatim>\<open>static/js/app.js\<close>, whose list has a sixth pattern: a link of
  the legacy shape \<^verbatim>\<open>youtube.com/v/\<close> is accepted although it is none of the five shapes,
  however leniently they are read.
\<close>

theorem validateUrl_legacy_shape_counterexample:
  "validateUrl (js ''https://www.youtube.com/v/abc123'') \<and>
   \<not> spec_validate (js ''https://www.youtube.com/v/abc123'')"
  by code_simp

text \<open>
  C1, amended. \<^verbatim>\<open>validateUrl\<close> of \<^verbatim>\<open>static/js/app.js\<close> returns true iff the text contains, at
  any position and in any letter case, one of its six markers (the five shapes and
  \<^verbatim>\<open>youtube.com/v/\<close>); the anchored variant returns true iff the text begins with an
  optional \<^verbatim>\<open>http://\<close> or \<^verbatim>\<open>https://\<close>, an optional \<^verbatim>\<open>www.\<close>, one of its five shapes and
  then at least one letter, digit, underscore or hyphen. Both accept the four listed
  links and reject the three listed texts.
\<close>

theorem validateUrl_allowed_shapes:
  "(validateUrl url \<longleftrightarrow>
      (\<exists>p pre u suf. p \<in> set YOUTUBE_PATTERNS \<and> url = pre @ u @ suf \<and> ci_eq u p)) \<and>
   (validateUrl_p0 url \<longleftrightarrow>
      (\<exists>scheme www shape u c rest.
          scheme \<in> {[], js ''http://'', js ''https://''} \<and> www \<in> {[], js ''www.''} \<and>
          shape \<in> set YOUTUBE_SHAPES_p0 \<and>
          url = u @ c # rest \<and> ci_eq u (scheme @ www @ shape) \<and> word_or_hyphen c)) \<and>
   (validateUrl (js ''https://www.youtube.com/watch?v=abc123'') \<and>
    validateUrl (js ''youtu.be/abc123'') \<and>
    validateUrl (js ''https://youtube.com/shorts/abc123'') \<and>
    validateUrl (js ''https://music.youtube.com/watch?v=abc123'') \<and>
    \<not> validateUrl [] \<and>
    \<not> validateUrl (js ''https://vimeo.com/123'') \<and>
    \<not> validateUrl (js ''not a url'')) \<and>
   (validateUrl_p0 (js ''https://www.youtube.com/watch?v=abc123'') \<and>
    validateUrl_p0 (js ''youtu.be/abc123'') \<and>
    validateUrl_p0 (js ''https://youtube.com/shorts/abc123'') \<and>
    validateUrl_p0 (js ''https://music.youtube.com/watch?v=abc123'') \<and>
    \<not> validateUrl_p0 [] \<and>
    \<not> validateUrl_p0 (js ''https://vimeo.com/123'') \<and>
    \<not> validateUrl_p0 (js ''not a url''))"
proof (intro conjI)
  show "validateUrl url \<longleftrightarrow>
      (\<exists>p pre u suf. p \<in> set YOUTUBE_PATTERNS \<and> url = pre @ u @ suf \<and> ci_eq u p)"
    by (rule validateUrl_iff)
  show "validateUrl_p0 url \<longleftrightarrow>
      (\<exists>scheme www shape u c rest.
          scheme \<in> {[], js ''http://'', js ''https://''} \<and> www \<in> {[], js ''www.''} \<and>
          shape \<in> set YOUTUBE_SHAPES_p0 \<and>
          url = u @ c # rest \<and> ci_eq u (scheme @ www @ shape) \<and> word_or_hyphen c)"
    by (rule validateUrl_p0_iff)
qed code_simp+

text \<open>
  C2. When a precondition of a submission fails (the processing flag is set, or the
  trimmed input is empty, or it fails the validation), no network request is issued
  and nothing but the inline input error changes: with the flag set the page stays as
  it is; otherwise the page differs from the old one in the four fields of the inline
  error only, whose text asks to enter a link for an empty input and to enter a valid
  link for a rejected one. The two texts differ. Both variants.
\<close>

theorem handleSubmit_rejections:
  "(isProcessing s \<longrightarrow> handleSubmit env s = s \<and> handleSubmit_p0 env s = s) \<and>
   (\<not> isProcessing s \<and> trim (urlInput_value s) = [] \<longrightarrow>
      handleSubmit env s =
        s\<lparr>urlInput_error := True, inputError_text := js ''Please enter a YouTube link'',
          inputError_visible := True, inputHint_display := js ''none''\<rparr> \<and>
      handleSubmit_p0 env s =
        s\<lparr>urlInput_error := True, inputError_text := js ''Please enter a YouTube link'',
          inputError_visible := True, inputHint_display := js ''none''\<rparr>) \<and>
   (\<not> isProcessing s \<and> trim (urlInput_value s) \<noteq> [] \<and> \<not> validateUrl (trim (urlInput_value s)) \<longrightarrow>
      handleSubmit env s =
        s\<lparr>urlInput_error := True, inputError_text := js ''Please enter a valid YouTube link'',
          inputError_visible := True, inputHint_display := js ''none''\<rparr>) \<and>
   (\<not> isProcessing s \<and> trim (urlInput_value s) \<noteq> [] \<and> \<not> validateUrl_p0 (trim (urlInput_value s)) \<longrightarrow>
      handleSubmit_p0 env s =
        s\<lparr>urlInput_error := True, inputError_text := js ''Please enter a valid YouTube link'',
          inputError_visible := True, inputHint_display := js ''none''\<rparr>) \<and>
   (isProcessing s \<or> trim (urlInput_value s) = [] \<or> \<not> validateUrl (trim (urlInput_value s)) \<longrightarrow>
      trace (handleSubmit env s) = trace s \<and> timers (handleSubmit env s) = timers s \<and>
      frames (handleSubmit env s) = frames s \<and>
      isProcessing (handleSubmit env s) = isProcessing s \<and>
      urlInput_value (handleSubmit env s) = urlInput_value s) \<and>
   (isProcessing s \<or> trim (urlInput_value s) = [] \<or> \<not> validateUrl_p0 (trim (urlInput_value s)) \<longrightarrow>
      trace (handleSubmit_p0 env s) = trace s \<and> timers (handleSubmit_p0 env s) = timers s \<and>
      frames (handleSubmit_p0 env s) = frames s \<and>
      isProcessing (handleSubmit_p0 env s) = isProcessing s \<and>
      urlInput_value (handleSubmit_p0 env s) = urlInput_value s) \<and>
   js ''Please enter a YouTube link'' \<noteq> js ''Please enter a valid YouTube link''"
proof (intro conjI impI)
  show "js ''Please enter a YouTube link'' \<noteq> js ''Please enter a valid YouTube link''"
    by (simp add: js_def)
qed (auto simp: handleSubmit_def handleSubmit_p0_def showInputError_def Let_def)

theorem handleSubmit_rejections_witness:
  "isProcessing ((initial_page sample_url)\<lparr>isProcessing := True\<rparr>) \<and>
   handleSubmit (env_recovering 0 (Num 125)) ((initial_page sample_url)\<lparr>isProcessing := True\<rparr>) =
     (initial_page sample_url)\<lparr>isProcessing := True\<rparr> \<and>
   trim (urlInput_value (initial_page (js ''   ''))) = [] \<and>
   inputError_text (handleSubmit (env_recovering 0 (Num 125)) (initial_page (js ''   ''))) =
     js ''Please enter a YouTube link'' \<and>
   trace (handleSubmit (env_recovering 0 (Num 125)) (initial_page (js ''   ''))) = [] \<and>
   \<not> validateUrl (trim (urlInput_value (initial_page (js ''https://vimeo.com/123'')))) \<and>
   inputError_text (handleSubmit (env_recovering 0 (Num 125)) (initial_page (js ''https://vimeo.com/123''))) =
     js ''Please enter a valid YouTube link'' \<and>
   inputError_text (handleSubmit_p0 (env_recovering 0 (Num 125)) (initial_page (js ''https://vimeo.com/123''))) =
     js ''Please enter a valid YouTube link'' \<and>
   trace (handleSubmit (env_recovering 0 (Num 125)) (initial_page (js ''https://vimeo.com/123''))) = []"
proof -
  let ?env = "env_recovering 0 (Num 125)"
  let ?busy = "(initial_page sample_url)\<lparr>isProcessing := True\<rparr>"
  let ?blank = "initial_page (js ''   '')"
  let ?other = "initial_page (js ''https://vimeo.com/123'')"
  have busy: "isProcessing ?busy" by simp
  have blank: "\<not> isProcessing ?blank" "trim (urlInput_value ?blank) = []" "trace ?blank = []"
    by (simp_all add: initial_page_def trim_blank)
  have other: "\<not> isProcessing ?other" "trim (urlInput_value ?other) \<noteq> []"
    "\<not> validateUrl (trim (urlInput_value ?other))" "\<not> validateUrl_p0 (trim (urlInput_value ?other))"
    "trace ?other = []"
    using vimeo_rejected by (simp_all add: initial_page_def)
  note A = handleSubmit_rejections [where s = ?busy and env = ?env]
  note B = handleSubmit_rejections [where s = ?blank and env = ?env]
  note C = handleSubmit_rejections [where s = ?other and env = ?env]
  from A busy have a: "handleSubmit ?env ?busy = ?busy" by blast
  from B blank(1,2) have b: "handleSubmit ?env ?blank =
        ?blank\<lparr>urlInput_error := True, inputError_text := js ''Please enter a YouTube link'',
          inputError_visible := True, inputHint_display := js ''none''\<rparr>"
    "trace (handleSubmit ?env ?blank) = trace ?blank"
    by blast+
  from C other(1-4) have c: "handleSubmit ?env ?other =
        ?other\<lparr>urlInput_error := True, inputError_text := js ''Please enter a valid YouTube link'',
          inputError_visible := True, inputHint_display := js ''none''\<rparr>"
    "handleSubmit_p0 ?env ?other =
        ?other\<lparr>urlInput_error := True, inputError_text := js ''Please enter a valid YouTube link'',
          inputError_visible := True, inputHint_display := js ''none''\<rparr>"
    "trace (handleSubmit ?env ?other) = trace ?other"
    by blast+
  show ?thesis
    unfolding a b c using busy blank other by simp
qed

text \<open>
  C3. The retrying policy of \<^verbatim>\<open>static/js/app.js\<close>. When the metadata fetch fails three
  times, \<^verbatim>\<open>fetchVideoInfo\<close> has been called exactly three times; between two calls stand
  the console note, the progress update \<^verbatim>\<open>Retrying...\<close> at 10% and a pause of 1000 ms; the
  failure is shown only after the third call, with the message of the third error. A
  success of the first, second or third call ends the loop, and the sequence goes on to
  the download. There is no fourth call: the run does not depend on what one would meet.
\<close>

theorem startDownload_retry_policy:
  "((\<forall>t. fst (fetchVideoInfo (env 0) url t) = Inl ea) \<and>
    (\<forall>t. fst (fetchVideoInfo (env 1) url t) = Inl eb) \<and>
    (\<forall>t. fst (fetchVideoInfo (env 2) url t) = Inl ec) \<longrightarrow>
      trace (startDownload env url s) =
        trace s @ [Progress (js ''Fetching video info...'') 5] @
        info_requests url @ retry_events 2 @ info_requests url @ retry_events 1 @
        info_requests url @
        [ConsoleError ec, Status (js ''error'') (js ''Download failed'') (message_or_retry ec)] \<and>
      status_className (startDownload env url s) = js ''status status--error'' \<and>
      status_title (startDownload env url s) = js ''Download failed'' \<and>
      status_message (startDownload env url s) = message_or_retry ec \<and>
      \<not> status_hidden (startDownload env url s)) \<and>
   ((\<forall>t. fst (fetchVideoInfo (env 0) url t) = Inr info) \<longrightarrow>
      (\<exists>q. encodeURIComponent url = Inr q \<and>
        trace (startDownload env url s) =
          trace s @ [Progress (js ''Fetching video info...'') 5] @ info_requests url @
          download_events 1500 q info)) \<and>
   ((\<forall>t. fst (fetchVideoInfo (env 0) url t) = Inl ea) \<and>
    (\<forall>t. fst (fetchVideoInfo (env 1) url t) = Inr info) \<longrightarrow>
      (\<exists>q. encodeURIComponent url = Inr q \<and>
        trace (startDownload env url s) =
          trace s @ [Progress (js ''Fetching video info...'') 5] @ info_requests url @
          retry_events 2 @ info_requests url @ download_events 1500 q info)) \<and>
   ((\<forall>t. fst (fetchVideoInfo (env 0) url t) = Inl ea) \<and>
    (\<forall>t. fst (fetchVideoInfo (env 1) url t) = Inl eb) \<and>
    (\<forall>t. fst (fetchVideoInfo (env 2) url t) = Inr info) \<longrightarrow>
      (\<exists>q. encodeURIComponent url = Inr q \<and>
        trace (startDownload env url s) =
          trace s @ [Progress (js ''Fetching video info...'') 5] @ info_requests url @
          retry_events 2 @ info_requests url @ retry_events 1 @ info_requests url @
          download_events 1500 q info)) \<and>
   (env 0 = env' 0 \<and> env 1 = env' 1 \<and> env 2 = env' 2 \<longrightarrow>
      startDownload env url s = startDownload env' url s)"
proof (intro conjI impI; (elim conjE)?)
  assume a: "\<forall>t. fst (fetchVideoInfo (env 0) url t) = Inl ea"
    "\<forall>t. fst (fetchVideoInfo (env 1) url t) = Inl eb"
    "\<forall>t. fst (fetchVideoInfo (env 2) url t) = Inl ec"
  note f = startDownload_all_fail [of env url ea eb ec s, OF a(1)[rule_format] a(2)[rule_format] a(3)[rule_format]]
  show "trace (startDownload env url s) =
        trace s @ [Progress (js ''Fetching video info...'') 5] @
        info_requests url @ retry_events 2 @ info_requests url @ retry_events 1 @
        info_requests url @
        [ConsoleError ec, Status (js ''error'') (js ''Download failed'') (message_or_retry ec)]"
    by (rule f(1))
  show "status_className (startDownload env url s) = js ''status status--error''" by (rule f(2))
  show "status_title (startDownload env url s) = js ''Download failed''" by (rule f(3))
  show "status_message (startDownload env url s) = message_or_retry ec" by (rule f(4))
  show "\<not> status_hidden (startDownload env url s)" by (simp add: f(5))
next
  assume a: "\<forall>t. fst (fetchVideoInfo (env 0) url t) = Inr info"
  from fetchVideoInfo_Inr_encodable [OF a[rule_format]] obtain q where q: "encodeURIComponent url = Inr q"
    by blast
  from startDownload_ok0(1) [of env url info q s, OF a[rule_format] q] q
  show "\<exists>q. encodeURIComponent url = Inr q \<and>
        trace (startDownload env url s) =
          trace s @ [Progress (js ''Fetching video info...'') 5] @ info_requests url @
          download_events 1500 q info" by blast
next
  assume a: "\<forall>t. fst (fetchVideoInfo (env 0) url t) = Inl ea"
    "\<forall>t. fst (fetchVideoInfo (env 1) url t) = Inr info"
  from fetchVideoInfo_Inr_encodable [OF a(2)[rule_format]] obtain q where q: "encodeURIComponent url = Inr q"
    by blast
  from startDownload_ok1(1) [of env url ea info q s, OF a(1)[rule_format] a(2)[rule_format] q] q
  show "\<exists>q. encodeURIComponent url = Inr q \<and>
        trace (startDownload env url s) =
          trace s @ [Progress (js ''Fetching video info...'') 5] @ info_requests url @
          retry_events 2 @ info_requests url @ download_events 1500 q info" by blast
next
  assume a: "\<forall>t. fst (fetchVideoInfo (env 0) url t) = Inl ea"
    "\<forall>t. fst (fetchVideoInfo (env 1) url t) = Inl eb"
    "\<forall>t. fst (fetchVideoInfo (env 2) url t) = Inr info"
  from fetchVideoInfo_Inr_encodable [OF a(3)[rule_format]] obtain q where q: "encodeURIComponent url = Inr q"
    by blast
  from startDownload_ok2(1) [of env url ea eb info q s, OF a(1)[rule_format] a(2)[rule_format] a(3)[rule_format] q] q
  show "\<exists>q. encodeURIComponent url = Inr q \<and>
        trace (startDownload env url s) =
          trace s @ [Progress (js ''Fetching video info...'') 5] @ info_requests url @
          retry_events 2 @ info_requests url @ retry_events 1 @ info_requests url @
          download_events 1500 q info" by blast
next
  assume "env 0 = env' 0" "env 1 = env' 1" "env 2 = env' 2"
  then show "startDownload env url s = startDownload env' url s"
    by (rule startDownload_env_cong)
qed

theorem startDownload_retry_policy_witness:
  "(\<forall>t. fst (fetchVideoInfo (env_recovering 3 (Num 125) 2) sample_url t) = Inl offline) \<and>
   trace (startDownload (env_recovering 3 (Num 125)) sample_url (initial_page sample_url)) =
     trace (initial_page sample_url) @ [Progress (js ''Fetching video info...'') 5] @
     info_requests sample_url @ retry_events 2 @ info_requests sample_url @ retry_events 1 @
     info_requests sample_url @
     [ConsoleError offline, Status (js ''error'') (js ''Download failed'') (message_or_retry offline)] \<and>
   status_message (startDownload (env_recovering 3 (Num 125)) sample_url (initial_page sample_url)) =
     js ''Failed to fetch'' \<and>
   (\<forall>t. fst (fetchVideoInfo (env_recovering 0 (Num 125) 0) sample_url t) = Inr (sample_info (Num 125))) \<and>
   (\<exists>q. encodeURIComponent sample_url = Inr q \<and>
      trace (startDownload (env_recovering 0 (Num 125)) sample_url (initial_page sample_url)) =
        trace (initial_page sample_url) @ [Progress (js ''Fetching video info...'') 5] @
        info_requests sample_url @ download_events 1500 q (sample_info (Num 125))) \<and>
   (\<exists>q. encodeURIComponent sample_url = Inr q \<and>
      trace (startDownload (env_recovering 1 (Num 125)) sample_url (initial_page sample_url)) =
        trace (initial_page sample_url) @ [Progress (js ''Fetching video info...'') 5] @
        info_requests sample_url @ retry_events 2 @ info_requests sample_url @
        download_events 1500 q (sample_info (Num 125))) \<and>
   (\<exists>q. encodeURIComponent sample_url = Inr q \<and>
      trace (startDownload (env_recovering 2 (Num 125)) sample_url (initial_page sample_url)) =
        trace (initial_page sample_url) @ [Progress (js ''Fetching video info...'') 5] @
        info_requests sample_url @ retry_events 2 @ info_requests sample_url @ retry_events 1 @
        info_requests sample_url @ download_events 1500 q (sample_info (Num 125))) \<and>
   env_recovering 3 (Num 125) 3 \<noteq> env_recovering 4 (Num 125) 3 \<and>
   startDownload (env_recovering 3 (Num 125)) sample_url (initial_page sample_url) =
     startDownload (env_recovering 4 (Num 125)) sample_url (initial_page sample_url)"
proof -
  let ?d = "Num 125"
  let ?s = "initial_page sample_url"
  have fail: "\<forall>t. fst (fetchVideoInfo (env_recovering 3 ?d 0) sample_url t) = Inl offline"
    "\<forall>t. fst (fetchVideoInfo (env_recovering 3 ?d 1) sample_url t) = Inl offline"
    "\<forall>t. fst (fetchVideoInfo (env_recovering 3 ?d 2) sample_url t) = Inl offline"
    "\<forall>t. fst (fetchVideoInfo (env_recovering 2 ?d 0) sample_url t) = Inl offline"
    "\<forall>t. fst (fetchVideoInfo (env_recovering 2 ?d 1) sample_url t) = Inl offline"
    "\<forall>t. fst (fetchVideoInfo (env_recovering 1 ?d 0) sample_url t) = Inl offline"
    by (simp_all add: sample_attempt)
  have ok: "\<forall>t. fst (fetchVideoInfo (env_recovering 0 ?d 0) sample_url t) = Inr (sample_info ?d)"
    "\<forall>t. fst (fetchVideoInfo (env_recovering 1 ?d 1) sample_url t) = Inr (sample_info ?d)"
    "\<forall>t. fst (fetchVideoInfo (env_recovering 2 ?d 2) sample_url t) = Inr (sample_info ?d)"
    by (simp_all add: sample_attempt)
  have msg: "message_or_retry offline = js ''Failed to fetch''"
    by (simp add: message_or_retry_def offline_def js_def)
  have cong: "env_recovering 3 ?d 0 = env_recovering 4 ?d 0 \<and>
      env_recovering 3 ?d 1 = env_recovering 4 ?d 1 \<and> env_recovering 3 ?d 2 = env_recovering 4 ?d 2"
    by (simp add: env_recovering_def)
  have diff: "env_recovering 3 ?d 3 \<noteq> env_recovering 4 ?d 3"
    by (simp add: env_recovering_def)
  note A = startDownload_retry_policy [where env = "env_recovering 3 ?d" and url = sample_url
      and s = ?s and ea = offline and eb = offline and ec = offline
      and env' = "env_recovering 4 ?d" and info = "sample_info ?d"]
  note B = startDownload_retry_policy [where env = "env_recovering 0 ?d" and url = sample_url
      and s = ?s and ea = offline and eb = offline and ec = offline
      and env' = "env_recovering 0 ?d" and info = "sample_info ?d"]
  note C = startDownload_retry_policy [where env = "env_recovering 1 ?d" and url = sample_url
      and s = ?s and ea = offline and eb = offline and ec = offline
      and env' = "env_recovering 1 ?d" and info = "sample_info ?d"]
  note D = startDownload_retry_policy [where env = "env_recovering 2 ?d" and url = sample_url
      and s = ?s and ea = offline and eb = offline and ec = offline
      and env' = "env_recovering 2 ?d" and info = "sample_info ?d"]
  from A fail(1-3) cong
  have a: "trace (startDownload (env_recovering 3 ?d) sample_url ?s) =
     trace ?s @ [Progress (js ''Fetching video info...'') 5] @
     info_requests sample_url @ retry_events 2 @ info_requests sample_url @ retry_events 1 @
     info_requests sample_url @
     [ConsoleError offline, Status (js ''error'') (js ''Download failed'') (message_or_retry offline)]"
    "status_message (startDownload (env_recovering 3 ?d) sample_url ?s) = message_or_retry offline"
    "startDownload (env_recovering 3 ?d) sample_url ?s = startDownload (env_recovering 4 ?d) sample_url ?s"
    by blast+
  from B ok(1)
  have b: "\<exists>q. encodeURIComponent sample_url = Inr q \<and>
      trace (startDownload (env_recovering 0 ?d) sample_url ?s) =
        trace ?s @ [Progress (js ''Fetching video info...'') 5] @
        info_requests sample_url @ download_events 1500 q (sample_info ?d)"
    by blast
  from C fail(6) ok(2)
  have c: "\<exists>q. encodeURIComponent sample_url = Inr q \<and>
      trace (startDownload (env_recovering 1 ?d) sample_url ?s) =
        trace ?s @ [Progress (js ''Fetching video info...'') 5] @
        info_requests sample_url @ retry_events 2 @ info_requests sample_url @
        download_events 1500 q (sample_info ?d)"
    by blast
  from D fail(4,5) ok(3)
  have d: "\<exists>q. encodeURIComponent sample_url = Inr q \<and>
      trace (startDownload (env_recovering 2 ?d) sample_url ?s) =
        trace ?s @ [Progress (js ''Fetching video info...'') 5] @
        info_requests sample_url @ retry_events 2 @ info_requests sample_url @ retry_events 1 @
        info_requests sample_url @ download_events 1500 q (sample_info ?d)"
    by blast
  from a b c d msg diff fail(3) ok(1) show ?thesis
    by (simp only: simp_thms)
qed

text \<open>
  C4. The specification says that \<^verbatim>\<open>fetchVideoInfo\<close> fails with the generic server-error
  message whenever the body cannot be parsed and never propagates the parser's
  exception. \<^verbatim>\<open>static/js/app.js\<close> does so; the second variant awaits \<^verbatim>\<open>response.json()\<close>
  outside any \<^verbatim>\<open>try\<close>, so for a body that is not JSON the parser's exception is what
  \<^verbatim>\<open>fetchVideoInfo\<close> throws and its text is what the user reads in the error status.
\<close>

theorem fetchVideoInfo_p0_raw_parse_error:
  "fst (fetchVideoInfo_p0 (Response False (Inl html_body_error)) sample_url (initial_page sample_url)) =
     Inl html_body_error \<and>
   status_message (startDownload_p0 (\<lambda>k. Response False (Inl html_body_error)) sample_url
                     (initial_page sample_url)) =
     js ''Unexpected token < in JSON at position 0'' \<and>
   fst (fetchVideoInfo (Response False (Inl html_body_error)) sample_url (initial_page sample_url)) =
     Inl (Error (js ''Server error. Please try again.'')) \<and>
   status_message (startDownload (\<lambda>k. Response False (Inl html_body_error)) sample_url
                     (initial_page sample_url)) =
     js ''Server error. Please try again.''"
proof (intro conjI)
  show "fst (fetchVideoInfo_p0 (Response False (Inl html_body_error)) sample_url (initial_page sample_url)) =
     Inl html_body_error"
    by (rule fetchVideoInfo_p0_results(2) [OF encode_sample_url])
  have "status_message (startDownload_p0 (\<lambda>k. Response False (Inl html_body_error)) sample_url
                     (initial_page sample_url)) = message_or_retry html_body_error"
    by (rule startDownload_p0_error_message(1) [OF encode_sample_url])
       (rule fetchVideoInfo_p0_results(2) [OF encode_sample_url])
  then show "status_message (startDownload_p0 (\<lambda>k. Response False (Inl html_body_error)) sample_url
                     (initial_page sample_url)) =
     js ''Unexpected token < in JSON at position 0''"
    by (simp add: message_or_retry_def html_body_error_def js_def)
  show "fst (fetchVideoInfo (Response False (Inl html_body_error)) sample_url (initial_page sample_url)) =
     Inl (Error (js ''Server error. Please try again.''))"
    by (rule fetchVideoInfo_results(2) [OF encode_sample_url])
  have "status_message (startDownload (\<lambda>k. Response False (Inl html_body_error)) sample_url
                     (initial_page sample_url)) =
     message_or_retry (Error (js ''Server error. Please try again.''))"
    by (rule startDownload_all_fail(4)
          [where env = "\<lambda>k. Response False (Inl html_body_error)"
             and ?e0.0 = "Error (js ''Server error. Please try again.'')"
             and ?e1.0 = "Error (js ''Server error. Please try again.'')"])
       (rule fetchVideoInfo_results(2) [OF encode_sample_url])+
  then show "status_message (startDownload (\<lambda>k. Response False (Inl html_body_error)) sample_url
                     (initial_page sample_url)) =
     js ''Server error. Please try again.''"
    by (simp add: message_or_retry_def js_def)
qed

text \<open>
  The rest of the contract of \<^verbatim>\<open>fetchVideoInfo\<close>, for every URL that can be encoded: an
  unparseable body gives the generic server-error message in \<^verbatim>\<open>static/js/app.js\<close>; a
  non-success answer gives the server's message when it has one and the generic
  failed-to-fetch message otherwise; a success returns the parsed record as it is. A
  non-success answer with the message \<^verbatim>\<open>quota exceeded\<close> ends the attempt with that very
  text in the error status and the processing flag false. The last three hold in both
  variants.
\<close>

theorem fetchVideoInfo_contract:
  "(encodeURIComponent url = Inr q \<longrightarrow>
      fst (fetchVideoInfo (Response ok (Inl e)) url s) =
        Inl (Error (js ''Server error. Please try again.'')) \<and>
      (info_error d = Some m \<and> m \<noteq> [] \<longrightarrow>
         fst (fetchVideoInfo (Response False (Inr d)) url s) = Inl (Error m) \<and>
         fst (fetchVideoInfo_p0 (Response False (Inr d)) url s) = Inl (Error m)) \<and>
      (info_error d = None \<or> info_error d = Some [] \<longrightarrow>
         fst (fetchVideoInfo (Response False (Inr d)) url s) =
           Inl (Error (js ''Failed to fetch video info'')) \<and>
         fst (fetchVideoInfo_p0 (Response False (Inr d)) url s) =
           Inl (Error (js ''Failed to fetch video info''))) \<and>
      fst (fetchVideoInfo (Response True (Inr d)) url s) = Inr d \<and>
      fst (fetchVideoInfo_p0 (Response True (Inr d)) url s) = Inr d \<and>
      (env 0 = Response False (Inr d) \<and> env 1 = Response False (Inr d) \<and>
       env 2 = Response False (Inr d) \<and> info_error d = Some m \<and> m \<noteq> [] \<longrightarrow>
         status_message (startDownload env url s) = m \<and>
         status_className (startDownload env url s) = js ''status status--error'' \<and>
         \<not> isProcessing (startDownload env url s) \<and>
         status_message (startDownload_p0 env url s) = m \<and>
         \<not> isProcessing (startDownload_p0 env url s)))"
proof (intro impI conjI; (elim conjE)?)
  assume q: "encodeURIComponent url = Inr q"
  show "fst (fetchVideoInfo (Response ok (Inl e)) url s) =
        Inl (Error (js ''Server error. Please try again.''))"
    by (rule fetchVideoInfo_results(2) [OF q])
  show "fst (fetchVideoInfo (Response True (Inr d)) url s) = Inr d"
    by (rule fetchVideoInfo_results(4) [OF q])
  show "fst (fetchVideoInfo_p0 (Response True (Inr d)) url s) = Inr d"
    by (rule fetchVideoInfo_p0_results(4) [OF q])
  {
    assume m: "info_error d = Some m" "m \<noteq> []"
    then have od: "or_default (info_error d) (js ''Failed to fetch video info'') = m"
      by (simp add: or_default_def)
    show "fst (fetchVideoInfo (Response False (Inr d)) url s) = Inl (Error m)"
      using fetchVideoInfo_results(3) [OF q, of d s] od by simp
    show "fst (fetchVideoInfo_p0 (Response False (Inr d)) url s) = Inl (Error m)"
      using fetchVideoInfo_p0_results(3) [OF q, of d s] od by simp
  }
  {
    assume "info_error d = None \<or> info_error d = Some []"
    then have od: "or_default (info_error d) (js ''Failed to fetch video info'') =
        js ''Failed to fetch video info''"
      by (auto simp: or_default_def)
    show "fst (fetchVideoInfo (Response False (Inr d)) url s) =
           Inl (Error (js ''Failed to fetch video info''))"
      using fetchVideoInfo_results(3) [OF q, of d s] od by simp
    show "fst (fetchVideoInfo_p0 (Response False (Inr d)) url s) =
           Inl (Error (js ''Failed to fetch video info''))"
      using fetchVideoInfo_p0_results(3) [OF q, of d s] od by simp
  }
  {
    assume env: "env 0 = Response False (Inr d)" "env 1 = Response False (Inr d)"
      "env 2 = Response False (Inr d)" and m: "info_error d = Some m" "m \<noteq> []"
    from m have od: "or_default (info_error d) (js ''Failed to fetch video info'') = m"
      by (simp add: or_default_def)
    have f: "\<And>k t. env k = Response False (Inr d) \<Longrightarrow> fst (fetchVideoInfo (env k) url t) = Inl (Error m)"
      using fetchVideoInfo_results(3) [OF q, of d] od by simp
    have f0: "\<And>t. fst (fetchVideoInfo_p0 (env 0) url t) = Inl (Error m)"
      using fetchVideoInfo_p0_results(3) [OF q, of d] od env(1) by simp
    have mm: "message_or_retry (Error m) = m" using m(2) by (simp add: message_or_retry_def)
    note a = startDownload_all_fail [of env url "Error m" "Error m" "Error m" s,
        OF f [OF env(1)] f [OF env(2)] f [OF env(3)]]
    note b = startDownload_p0_error_message [of url q env "Error m" s, OF q f0]
    show "status_message (startDownload env url s) = m" using a(4) mm by simp
    show "status_className (startDownload env url s) = js ''status status--error''" by (rule a(2))
    show "\<not> isProcessing (startDownload env url s)" by (simp add: startDownload_flags)
    show "status_message (startDownload_p0 env url s) = m" using b(1) mm by simp
    show "\<not> isProcessing (startDownload_p0 env url s)" by (simp add: startDownload_p0_flags)
  }
qed

theorem fetchVideoInfo_contract_witness:
  "encodeURIComponent sample_url = Inr (js ''https%3A%2F%2Fyoutu.be%2Fabc123'') \<and>
   fst (fetchVideoInfo (Response True (Inl html_body_error)) sample_url (initial_page sample_url)) =
     Inl (Error (js ''Server error. Please try again.'')) \<and>
   fst (fetchVideoInfo quota_answer sample_url (initial_page sample_url)) =
     Inl (Error (js ''quota exceeded'')) \<and>
   fst (fetchVideoInfo (Response False (Inr (sample_info (Num 125)))) sample_url (initial_page sample_url)) =
     Inl (Error (js ''Failed to fetch video info'')) \<and>
   status_message (startDownload (\<lambda>k. quota_answer) sample_url (initial_page sample_url)) =
     js ''quota exceeded'' \<and>
   \<not> isProcessing (startDownload (\<lambda>k. quota_answer) sample_url (initial_page sample_url))"
proof -
  let ?d = "\<lparr>info_title = None, info_channel = None, info_duration = Undefined,
             info_thumbnail = None, info_error = Some (js ''quota exceeded'')\<rparr>"
  have qa: "quota_answer = Response False (Inr ?d)" by (simp add: quota_answer_def)
  have d: "info_error ?d = Some (js ''quota exceeded'')" "js ''quota exceeded'' \<noteq> []"
    by (simp_all add: js_def)
  have n: "info_error (sample_info (Num 125)) = None" by (simp add: sample_info_def)
  note A = fetchVideoInfo_contract [where url = sample_url and q = "js ''https%3A%2F%2Fyoutu.be%2Fabc123''"
      and s = "initial_page sample_url" and d = ?d and m = "js ''quota exceeded''"
      and env = "\<lambda>k. quota_answer" and ok = True and e = html_body_error,
      THEN mp, OF encode_sample_url, unfolded qa [symmetric]]
  note B = fetchVideoInfo_contract [where url = sample_url and q = "js ''https%3A%2F%2Fyoutu.be%2Fabc123''"
      and s = "initial_page sample_url" and d = "sample_info (Num 125)",
      THEN mp, OF encode_sample_url]
  from A d qa have a:
    "fst (fetchVideoInfo (Response True (Inl html_body_error)) sample_url (initial_page sample_url)) =
       Inl (Error (js ''Server error. Please try again.''))"
    "fst (fetchVideoInfo quota_answer sample_url (initial_page sample_url)) =
       Inl (Error (js ''quota exceeded''))"
    "status_message (startDownload (\<lambda>k. quota_answer) sample_url (initial_page sample_url)) =
       js ''quota exceeded''"
    "\<not> isProcessing (startDownload (\<lambda>k. quota_answer) sample_url (initial_page sample_url))"
    by blast+
  from B n have b:
    "fst (fetchVideoInfo (Response False (Inr (sample_info (Num 125)))) sample_url (initial_page sample_url)) =
     Inl (Error (js ''Failed to fetch video info''))"
    by blast
  from a b encode_sample_url show ?thesis by (simp only: simp_thms)
qed




text \<open>
  C6. In an attempt whose fetch stage delivers the metadata, the informational status
  \<^verbatim>\<open>Long video detected\<close> is showing at the end of the sequence iff the fetched duration is
  greater than 900 (1000 shows it, 500 and 900 do not); in the trace it stands between
  the stages at 30% and 60%, and everything else of the run (the download request, the
  pause, the timers, the final stage) is the same with and without it.
\<close>

theorem long_video_notice:
  "(startDownload_retry env url 2 0 None
      (showProgress (js ''Fetching video info...'') 5
        (hideSongInfo (hideStatus (setProcessingState True s)))) = (Some info, lastError, fetched) \<longrightarrow>
      (status_hidden (startDownload env url s) \<longleftrightarrow> \<not> js_gt (info_duration info) 900) \<and>
      (js_gt (info_duration info) 900 \<longrightarrow>
         status_className (startDownload env url s) = js ''status status--info'' \<and>
         status_title (startDownload env url s) = js ''Long video detected'' \<and>
         status_message (startDownload env url s) =
           js ''This video is '' @ formatDuration (info_duration info) @
           js ''. Download may take a few minutes.'') \<and>
      (\<exists>q. encodeURIComponent url = Inr q \<and>
         trace (startDownload env url s) =
           trace fetched @ [Progress (js ''Preparing download...'') 30] @ long_video_events info @
           [Progress (js ''Downloading...'') 60, Request (js ''/api/download?url='' @ q),
            Pause 1500, Progress (js ''Complete!'') 100]) \<and>
      timers (startDownload env url s) =
        timers s @ [(120000, RemoveFrame (next_frame s)), (500, SuccessNotice), (4000, ResetForm)] \<and>
      progress_stage (startDownload env url s) = js ''Complete!'' \<and>
      \<not> progress_hidden (startDownload env url s) \<and>
      \<not> songInfo_hidden (startDownload env url s)) \<and>
   (js_gt (Num x) 900 \<longleftrightarrow> 900 < x) \<and>
   js_gt (Num 1000) 900 \<and> \<not> js_gt (Num 500) 900 \<and> \<not> js_gt (Num 900) 900 \<and>
   \<not> js_gt Undefined 900 \<and> \<not> js_gt Null 900"
proof (intro conjI impI)
  let ?s0 = "showProgress (js ''Fetching video info...'') 5
               (hideSongInfo (hideStatus (setProcessingState True s)))"
  assume run: "startDownload_retry env url 2 0 None ?s0 = (Some info, lastError, fetched)"
  from retry_frame(2) [OF run] obtain q where q: "encodeURIComponent url = Inr q" by blast
  from retry_frame(1) [OF run] have fr: "status_hidden fetched" "timers fetched = timers s"
    "next_frame fetched = next_frame s"
    by (auto simp: page_ops)
  note f = startDownload_success_fields [OF run q]
  show "status_hidden (startDownload env url s) \<longleftrightarrow> \<not> js_gt (info_duration info) 900"
    unfolding f(4) using fr(1) by simp
  show "timers (startDownload env url s) =
        timers s @ [(120000, RemoveFrame (next_frame s)), (500, SuccessNotice), (4000, ResetForm)]"
    unfolding f(2) fr by simp
  show "progress_stage (startDownload env url s) = js ''Complete!''" by (rule f(7))
  show "\<not> progress_hidden (startDownload env url s)" by (simp add: f(6))
  show "\<not> songInfo_hidden (startDownload env url s)" by (simp add: f(8))
  from f(1) q show "\<exists>q. encodeURIComponent url = Inr q \<and>
         trace (startDownload env url s) =
           trace fetched @ [Progress (js ''Preparing download...'') 30] @ long_video_events info @
           [Progress (js ''Downloading...'') 60, Request (js ''/api/download?url='' @ q),
            Pause 1500, Progress (js ''Complete!'') 100]"
    by (simp add: download_events_def)
  assume "js_gt (info_duration info) 900"
  from f(5) [OF this]
  show "status_className (startDownload env url s) = js ''status status--info''"
    and "status_title (startDownload env url s) = js ''Long video detected''"
    and "status_message (startDownload env url s) =
           js ''This video is '' @ formatDuration (info_duration info) @
           js ''. Download may take a few minutes.''"
    by simp_all
qed (simp_all add: js_gt_def to_number_def)

theorem long_video_notice_witness:
  "(\<exists>le t. startDownload_retry (env_recovering 0 (Num 1000)) sample_url 2 0 None
      (showProgress (js ''Fetching video info...'') 5
        (hideSongInfo (hideStatus (setProcessingState True (initial_page sample_url))))) =
      (Some (sample_info (Num 1000)), le, t)) \<and>
   \<not> status_hidden (startDownload (env_recovering 0 (Num 1000)) sample_url (initial_page sample_url)) \<and>
   status_title (startDownload (env_recovering 0 (Num 1000)) sample_url (initial_page sample_url)) =
     js ''Long video detected'' \<and>
   status_message (startDownload (env_recovering 0 (Num 1000)) sample_url (initial_page sample_url)) =
     js ''This video is 16:40. Download may take a few minutes.'' \<and>
   status_hidden (startDownload (env_recovering 0 (Num 500)) sample_url (initial_page sample_url)) \<and>
   timers (startDownload (env_recovering 0 (Num 1000)) sample_url (initial_page sample_url)) =
     timers (startDownload (env_recovering 0 (Num 500)) sample_url (initial_page sample_url)) \<and>
   progress_stage (startDownload (env_recovering 0 (Num 1000)) sample_url (initial_page sample_url)) =
     js ''Complete!''"
proof -
  let ?page = "initial_page sample_url"
  let ?begun = "showProgress (js ''Fetching video info...'') 5
               (hideSongInfo (hideStatus (setProcessingState True ?page)))"
  let ?t = "?begun\<lparr>trace := trace ?begun @ info_requests sample_url\<rparr>"
  have long: "startDownload_retry (env_recovering 0 (Num 1000)) sample_url 2 0 None ?begun =
      (Some (sample_info (Num 1000)), None, ?t)"
    by (rule retry_ok0) (simp add: sample_attempt)
  have short: "startDownload_retry (env_recovering 0 (Num 500)) sample_url 2 0 None ?begun =
      (Some (sample_info (Num 500)), None, ?t)"
    by (rule retry_ok0) (simp add: sample_attempt)
  have d: "info_duration (sample_info (Num 1000)) = Num 1000"
    "info_duration (sample_info (Num 500)) = Num 500"
    by (simp_all add: sample_info_def)
  have gt: "js_gt (Num 1000) 900" "\<not> js_gt (Num 500) 900"
    by (simp_all add: js_gt_def to_number_def)
  note A = long_video_notice [where env = "env_recovering 0 (Num 1000)" and url = sample_url
      and s = ?page and info = "sample_info (Num 1000)" and lastError = None and fetched = ?t,
      THEN conjunct1, THEN mp, OF long, unfolded d]
  note B = long_video_notice [where env = "env_recovering 0 (Num 500)" and url = sample_url
      and s = ?page and info = "sample_info (Num 500)" and lastError = None and fetched = ?t,
      THEN conjunct1, THEN mp, OF short, unfolded d]
  from A gt have a: "\<not> status_hidden (startDownload (env_recovering 0 (Num 1000)) sample_url ?page)"
    "status_title (startDownload (env_recovering 0 (Num 1000)) sample_url ?page) = js ''Long video detected''"
    "status_message (startDownload (env_recovering 0 (Num 1000)) sample_url ?page) =
       js ''This video is '' @ formatDuration (Num 1000) @ js ''. Download may take a few minutes.''"
    "timers (startDownload (env_recovering 0 (Num 1000)) sample_url ?page) =
       timers ?page @ [(120000, RemoveFrame (next_frame ?page)), (500, SuccessNotice), (4000, ResetForm)]"
    "progress_stage (startDownload (env_recovering 0 (Num 1000)) sample_url ?page) = js ''Complete!''"
    by blast+
  from B gt have b: "status_hidden (startDownload (env_recovering 0 (Num 500)) sample_url ?page)"
    "timers (startDownload (env_recovering 0 (Num 500)) sample_url ?page) =
       timers ?page @ [(120000, RemoveFrame (next_frame ?page)), (500, SuccessNotice), (4000, ResetForm)]"
    by blast+
  have m: "js ''This video is '' @ formatDuration (Num 1000) @ js ''. Download may take a few minutes.'' =
      js ''This video is 16:40. Download may take a few minutes.''"
    unfolding formatDuration_1000 by (simp add: js_def)
  from long have "\<exists>le t. startDownload_retry (env_recovering 0 (Num 1000)) sample_url 2 0 None ?begun =
      (Some (sample_info (Num 1000)), le, t)" by blast
  with a b m show ?thesis by (simp only: simp_thms)
qed

text \<open>
  C7. Every attempt sequence ends, whatever its outcome, with the processing flag false
  and the input and the submit control enabled (the model is total, so every sequence
  ends); the typed URL is still in the input, and a following submission of a valid URL
  is accepted: it enters a new attempt sequence. Both variants.
\<close>

theorem startDownload_guaranteed_cleanup:
  "(\<not> isProcessing (startDownload env url s) \<and>
    \<not> urlInput_disabled (startDownload env url s) \<and>
    \<not> downloadBtn_disabled (startDownload env url s) \<and>
    \<not> downloadBtn_loading (startDownload env url s) \<and>
    urlInput_value (startDownload env url s) = urlInput_value s) \<and>
   (\<not> isProcessing (startDownload_p0 env url s) \<and>
    \<not> urlInput_disabled (startDownload_p0 env url s) \<and>
    \<not> downloadBtn_disabled (startDownload_p0 env url s) \<and>
    \<not> downloadBtn_loading (startDownload_p0 env url s) \<and>
    urlInput_value (startDownload_p0 env url s) = urlInput_value s) \<and>
   (trim (urlInput_value s) \<noteq> [] \<and> validateUrl (trim (urlInput_value s)) \<longrightarrow>
      handleSubmit next_env (startDownload env url s) =
        startDownload next_env (trim (urlInput_value s)) (startDownload env url s) \<and>
      (\<exists>rest. trace (handleSubmit next_env (startDownload env url s)) =
         trace (startDownload env url s) @ Progress (js ''Fetching video info...'') 5 # rest)) \<and>
   (trim (urlInput_value s) \<noteq> [] \<and> validateUrl_p0 (trim (urlInput_value s)) \<longrightarrow>
      handleSubmit_p0 next_env (startDownload_p0 env url s) =
        startDownload_p0 next_env (trim (urlInput_value s)) (startDownload_p0 env url s) \<and>
      (\<exists>rest. trace (handleSubmit_p0 next_env (startDownload_p0 env url s)) =
         trace (startDownload_p0 env url s) @ Progress (js ''Fetching video info...'') 5 # rest))"
proof (intro conjI impI)
  assume a: "trim (urlInput_value s) \<noteq> [] \<and> validateUrl (trim (urlInput_value s))"
  then show h: "handleSubmit next_env (startDownload env url s) =
        startDownload next_env (trim (urlInput_value s)) (startDownload env url s)"
    by (simp add: handleSubmit_def startDownload_flags startDownload_keeps_input Let_def)
  show "\<exists>rest. trace (handleSubmit next_env (startDownload env url s)) =
         trace (startDownload env url s) @ Progress (js ''Fetching video info...'') 5 # rest"
    unfolding h by (rule startDownload_trace_begins)
next
  assume a: "trim (urlInput_value s) \<noteq> [] \<and> validateUrl_p0 (trim (urlInput_value s))"
  then show h: "handleSubmit_p0 next_env (startDownload_p0 env url s) =
        startDownload_p0 next_env (trim (urlInput_value s)) (startDownload_p0 env url s)"
    by (simp add: handleSubmit_p0_def startDownload_p0_flags startDownload_p0_keeps_input Let_def)
  show "\<exists>rest. trace (handleSubmit_p0 next_env (startDownload_p0 env url s)) =
         trace (startDownload_p0 env url s) @ Progress (js ''Fetching video info...'') 5 # rest"
    unfolding h by (rule startDownload_p0_trace_begins)
qed (simp_all add: startDownload_flags startDownload_keeps_input
       startDownload_p0_flags startDownload_p0_keeps_input)

theorem startDownload_guaranteed_cleanup_witness:
  "trim (urlInput_value (initial_page sample_url)) \<noteq> [] \<and>
   validateUrl (trim (urlInput_value (initial_page sample_url))) \<and>
   validateUrl_p0 (trim (urlInput_value (initial_page sample_url))) \<and>
   handleSubmit (env_recovering 0 (Num 125))
       (startDownload (env_recovering 3 (Num 125)) sample_url (initial_page sample_url)) =
     startDownload (env_recovering 0 (Num 125)) sample_url
       (startDownload (env_recovering 3 (Num 125)) sample_url (initial_page sample_url)) \<and>
   handleSubmit_p0 (env_recovering 0 (Num 125))
       (startDownload_p0 (env_recovering 3 (Num 125)) sample_url (initial_page sample_url)) =
     startDownload_p0 (env_recovering 0 (Num 125)) sample_url
       (startDownload_p0 (env_recovering 3 (Num 125)) sample_url (initial_page sample_url))"
proof -
  have v: "urlInput_value (initial_page sample_url) = sample_url"
    by (simp add: initial_page_def)
  from startDownload_guaranteed_cleanup [where s = "initial_page sample_url"
      and env = "env_recovering 3 (Num 125)" and url = sample_url
      and next_env = "env_recovering 0 (Num 125)"]
    sample_url_valid
  show ?thesis
    unfolding v trim_sample_url by blast
qed

text \<open>
  C8. The reset that a successful attempt schedules with the longer delay (4000 ms,
  after the success notice at 500 ms) hides the status, progress and info panels and
  clears the inline input error; these are the only fields it changes, so the content of
  the URL input stays as the user typed it. No timer of the script changes it. Both
  variants.
\<close>

theorem resetForm_keeps_typed_url:
  "resetForm s =
     s\<lparr>status_hidden := True, progress_hidden := True, progress_fill := js ''0%'',
       songInfo_hidden := True, urlInput_error := False, inputError_visible := False,
       inputHint_display := []\<rparr> \<and>
   urlInput_value (resetForm s) = urlInput_value s \<and>
   status_hidden (resetForm s) \<and> progress_hidden (resetForm s) \<and> songInfo_hidden (resetForm s) \<and>
   \<not> urlInput_error (resetForm s) \<and> \<not> inputError_visible (resetForm s) \<and>
   inputHint_display (resetForm s) = [] \<and>
   run_timer ResetForm s = resetForm s \<and>
   urlInput_value (run_timer t s) = urlInput_value s \<and>
   (encodeURIComponent url = Inr q \<longrightarrow>
      timers (snd (present_and_download triggerDownload url info s)) =
        timers s @ [(120000, RemoveFrame (next_frame s)), (500, SuccessNotice), (4000, ResetForm)] \<and>
      timers (snd (present_and_download triggerDownload_p0 url info s)) =
        timers s @ [(60000, RemoveFrame (next_frame s)), (500, SuccessNotice), (4000, ResetForm)])"
proof (intro conjI impI)
  show "resetForm s =
     s\<lparr>status_hidden := True, progress_hidden := True, progress_fill := js ''0%'',
       songInfo_hidden := True, urlInput_error := False, inputError_visible := False,
       inputHint_display := []\<rparr>" by (rule resetForm_eq)
  show "urlInput_value (run_timer t s) = urlInput_value s" by (rule run_timer_keeps_input)
next
  assume q: "encodeURIComponent url = Inr q"
  show "timers (snd (present_and_download triggerDownload url info s)) =
        timers s @ [(120000, RemoveFrame (next_frame s)), (500, SuccessNotice), (4000, ResetForm)]"
    unfolding triggerDownload_def by (rule present_and_download_ok(3) [OF q])
  show "timers (snd (present_and_download triggerDownload_p0 url info s)) =
        timers s @ [(60000, RemoveFrame (next_frame s)), (500, SuccessNotice), (4000, ResetForm)]"
    unfolding triggerDownload_p0_def by (rule present_and_download_ok(3) [OF q])
qed (simp_all add: resetForm_eq)

theorem resetForm_keeps_typed_url_witness:
  "encodeURIComponent sample_url = Inr (js ''https%3A%2F%2Fyoutu.be%2Fabc123'') \<and>
   timers (snd (present_and_download triggerDownload sample_url (sample_info (Num 125))
                  (initial_page sample_url))) =
     [(120000, RemoveFrame 0), (500, SuccessNotice), (4000, ResetForm)] \<and>
   urlInput_value (run_timer ResetForm
       (snd (present_and_download triggerDownload sample_url (sample_info (Num 125))
               (initial_page sample_url)))) = sample_url"
proof -
  have p: "timers (initial_page sample_url) = []" "next_frame (initial_page sample_url) = 0"
    by (simp_all add: initial_page_def)
  have u: "urlInput_value (snd (present_and_download triggerDownload sample_url (sample_info (Num 125))
               (initial_page sample_url))) = sample_url"
    unfolding triggerDownload_def
    using present_and_download_ok(11) [OF encode_sample_url, of 1500 120000 "sample_info (Num 125)" "initial_page sample_url"]
    by (simp add: initial_page_def)
  note A = resetForm_keeps_typed_url [where url = sample_url
      and q = "js ''https%3A%2F%2Fyoutu.be%2Fabc123''" and info = "sample_info (Num 125)"
      and s = "initial_page sample_url"]
  note B = resetForm_keeps_typed_url [where t = ResetForm
      and s = "snd (present_and_download triggerDownload sample_url (sample_info (Num 125))
               (initial_page sample_url))"]
  from A encode_sample_url
  have "timers (snd (present_and_download triggerDownload sample_url (sample_info (Num 125))
                  (initial_page sample_url))) =
     timers (initial_page sample_url) @
     [(120000, RemoveFrame (next_frame (initial_page sample_url))), (500, SuccessNotice), (4000, ResetForm)]"
    by blast
  moreover from B have "urlInput_value (run_timer ResetForm
       (snd (present_and_download triggerDownload sample_url (sample_info (Num 125))
               (initial_page sample_url)))) =
       urlInput_value (snd (present_and_download triggerDownload sample_url (sample_info (Num 125))
               (initial_page sample_url)))"
    by blast
  ultimately show ?thesis using encode_sample_url by (simp add: p u)
qed

text \<open>
  C9. Every call of \<^verbatim>\<open>triggerDownload(url, title)\<close> that the controller makes resolves
  after a short fixed delay and does not reject, whatever the download endpoint does;
  the frame it inserts is removed only after a longer fixed delay; and no failure of
  the download step is observed by the controller or shown to the user.

  The only call of \<^verbatim>\<open>triggerDownload\<close> follows the fetch stage with the same URL: in
  \<^verbatim>\<open>static/js/app.js\<close> the retry loop has delivered a record, in the second variant
  \<^verbatim>\<open>fetchVideoInfo\<close> has returned one. In every such state, for every title and every
  page, the call resolves after its fixed delay (1500 ms, in the second variant
  1000 ms), having issued its request and inserted one frame, and sets the timer that
  removes this frame (120000 ms, in the second variant 60000 ms); nothing the download
  endpoint does is an input to it. The frame is removed only by that timer; the other
  timers leave the frames alone. Whenever the \<^verbatim>\<open>try\<close> block of the controller ends with
  an error, the fetch stage delivered no record and the error is the one of the fetch
  stage. A URL that \<^verbatim>\<open>encodeURIComponent\<close> refuses never reaches \<^verbatim>\<open>triggerDownload\<close>: the
  attempt fails in the fetch stage with that error as its message, and inserts no frame
  and sets no timer.
\<close>

theorem triggerDownload_resolves:
  "(startDownload_retry env url 2 0 None s = (Some info, lastError, fetched) \<longrightarrow>
      (\<exists>q. encodeURIComponent url = Inr q \<and>
        fst (triggerDownload url title page) = Inr () \<and>
        trace (snd (triggerDownload url title page)) =
          trace page @ [Request (js ''/api/download?url='' @ q), Pause 1500] \<and>
        frames (snd (triggerDownload url title page)) =
          frames page @ [(next_frame page, js ''/api/download?url='' @ q)] \<and>
        timers (snd (triggerDownload url title page)) =
          timers page @ [(120000, RemoveFrame (next_frame page))])) \<and>
   (fst (fetchVideoInfo_p0 (env 0) url s) = Inr info \<longrightarrow>
      (\<exists>q. encodeURIComponent url = Inr q \<and>
        fst (triggerDownload_p0 url title page) = Inr () \<and>
        trace (snd (triggerDownload_p0 url title page)) =
          trace page @ [Request (js ''/api/download?url='' @ q), Pause 1000] \<and>
        frames (snd (triggerDownload_p0 url title page)) =
          frames page @ [(next_frame page, js ''/api/download?url='' @ q)] \<and>
        timers (snd (triggerDownload_p0 url title page)) =
          timers page @ [(60000, RemoveFrame (next_frame page))])) \<and>
   frames (run_timer (RemoveFrame i) s) = filter (\<lambda>f. fst f \<noteq> i) (frames s) \<and>
   frames (run_timer SuccessNotice s) = frames s \<and>
   frames (run_timer ResetForm s) = frames s \<and>
   (fst (startDownload_try env url s) = Inl e \<longrightarrow>
      fst (startDownload_retry env url 2 0 None s) = None \<and>
      fst (snd (startDownload_retry env url 2 0 None s)) = Some e) \<and>
   (fst (startDownload_try_p0 env url s) = Inl e \<longrightarrow>
      fst (fetchVideoInfo_p0 (env 0) url s) = Inl e) \<and>
   (encodeURIComponent url = Inl e \<longrightarrow>
      frames (startDownload env url s) = frames s \<and>
      timers (startDownload env url s) = timers s \<and>
      status_message (startDownload env url s) = message_or_retry e \<and>
      frames (startDownload_p0 env url s) = frames s \<and>
      timers (startDownload_p0 env url s) = timers s \<and>
      status_message (startDownload_p0 env url s) = message_or_retry e)"
proof (intro conjI impI)
  assume run: "startDownload_retry env url 2 0 None s = (Some info, lastError, fetched)"
  from retry_frame(2) [OF run] obtain q where q: "encodeURIComponent url = Inr q" by blast
  note a = triggerDownload_with_ok [OF q, where a = 1500 and b = 120000 and title = title and s = page,
    folded triggerDownload_def]
  from q a show "\<exists>q. encodeURIComponent url = Inr q \<and>
        fst (triggerDownload url title page) = Inr () \<and>
        trace (snd (triggerDownload url title page)) =
          trace page @ [Request (js ''/api/download?url='' @ q), Pause 1500] \<and>
        frames (snd (triggerDownload url title page)) =
          frames page @ [(next_frame page, js ''/api/download?url='' @ q)] \<and>
        timers (snd (triggerDownload url title page)) =
          timers page @ [(120000, RemoveFrame (next_frame page))]"
    by blast
next
  assume "fst (fetchVideoInfo_p0 (env 0) url s) = Inr info"
  from fetchVideoInfo_p0_Inr_encodable [OF this] obtain q where q: "encodeURIComponent url = Inr q"
    by blast
  note b = triggerDownload_with_ok [OF q, where a = 1000 and b = 60000 and title = title and s = page,
    folded triggerDownload_p0_def]
  from q b show "\<exists>q. encodeURIComponent url = Inr q \<and>
        fst (triggerDownload_p0 url title page) = Inr () \<and>
        trace (snd (triggerDownload_p0 url title page)) =
          trace page @ [Request (js ''/api/download?url='' @ q), Pause 1000] \<and>
        frames (snd (triggerDownload_p0 url title page)) =
          frames page @ [(next_frame page, js ''/api/download?url='' @ q)] \<and>
        timers (snd (triggerDownload_p0 url title page)) =
          timers page @ [(60000, RemoveFrame (next_frame page))]"
    by blast
next
  assume "fst (startDownload_try env url s) = Inl e"
  then show "fst (startDownload_retry env url 2 0 None s) = None"
    and "fst (snd (startDownload_retry env url 2 0 None s)) = Some e"
    by (rule startDownload_try_Inl)+
next
  assume "fst (startDownload_try_p0 env url s) = Inl e"
  then show "fst (fetchVideoInfo_p0 (env 0) url s) = Inl e"
    by (rule startDownload_try_p0_Inl)
next
  assume e: "encodeURIComponent url = Inl e"
  note f = startDownload_all_fail [of env url e e e s,
      OF fetch_unencodable(1) [OF e] fetch_unencodable(1) [OF e] fetch_unencodable(1) [OF e]]
  note g = startDownload_p0_failed_frame [of env url e s, OF fetch_unencodable(2) [OF e]]
  show "frames (startDownload env url s) = frames s" by (rule f(9))
  show "timers (startDownload env url s) = timers s" by (rule f(8))
  show "status_message (startDownload env url s) = message_or_retry e" by (rule f(4))
  show "frames (startDownload_p0 env url s) = frames s" by (rule g(1))
  show "timers (startDownload_p0 env url s) = timers s" by (rule g(2))
  show "status_message (startDownload_p0 env url s) = message_or_retry e" by (rule g(3))
qed (simp_all add: page_ops)

theorem triggerDownload_resolves_witness:
  "startDownload_retry (env_recovering 0 (Num 125)) sample_url 2 0 None (initial_page sample_url) =
     (Some (sample_info (Num 125)), None,
      (initial_page sample_url)
        \<lparr>trace := trace (initial_page sample_url) @ info_requests sample_url\<rparr>) \<and>
   encodeURIComponent sample_url = Inr (js ''https%3A%2F%2Fyoutu.be%2Fabc123'') \<and>
   fst (triggerDownload sample_url (Some (js ''Song'')) (initial_page sample_url)) = Inr () \<and>
   trace (snd (triggerDownload sample_url (Some (js ''Song'')) (initial_page sample_url))) =
     trace (initial_page sample_url) @
     [Request (js ''/api/download?url='' @ js ''https%3A%2F%2Fyoutu.be%2Fabc123''), Pause 1500] \<and>
   timers (snd (triggerDownload sample_url (Some (js ''Song'')) (initial_page sample_url))) =
     timers (initial_page sample_url) @ [(120000, RemoveFrame (next_frame (initial_page sample_url)))] \<and>
   fst (fetchVideoInfo_p0 (env_recovering 0 (Num 125) 0) sample_url (initial_page sample_url)) =
     Inr (sample_info (Num 125)) \<and>
   fst (triggerDownload_p0 sample_url (Some (js ''Song'')) (initial_page sample_url)) = Inr () \<and>
   timers (snd (triggerDownload_p0 sample_url (Some (js ''Song'')) (initial_page sample_url))) =
     timers (initial_page sample_url) @ [(60000, RemoveFrame (next_frame (initial_page sample_url)))] \<and>
   fst (startDownload_try (env_recovering 3 (Num 125)) sample_url (initial_page sample_url)) = Inl offline \<and>
   fst (startDownload_retry (env_recovering 3 (Num 125)) sample_url 2 0 None (initial_page sample_url)) = None \<and>
   fst (startDownload_try_p0 (env_recovering 3 (Num 125)) sample_url (initial_page sample_url)) = Inl offline \<and>
   fst (fetchVideoInfo_p0 (env_recovering 3 (Num 125) 0) sample_url (initial_page sample_url)) = Inl offline \<and>
   encodeURIComponent (js ''youtu.be/'' @ [55296]) = Inl URI_malformed \<and>
   frames (startDownload (env_recovering 0 (Num 125)) (js ''youtu.be/'' @ [55296]) (initial_page sample_url)) =
     frames (initial_page sample_url) \<and>
   frames (startDownload_p0 (env_recovering 0 (Num 125)) (js ''youtu.be/'' @ [55296]) (initial_page sample_url)) =
     frames (initial_page sample_url)"
proof -
  let ?page = "initial_page sample_url"
  have run: "startDownload_retry (env_recovering 0 (Num 125)) sample_url 2 0 None ?page =
     (Some (sample_info (Num 125)), None, ?page\<lparr>trace := trace ?page @ info_requests sample_url\<rparr>)"
    by (rule retry_ok0) (simp add: sample_attempt)
  have got: "fst (fetchVideoInfo_p0 (env_recovering 0 (Num 125) 0) sample_url ?page) =
     Inr (sample_info (Num 125))"
    by (simp add: env_recovering_def fetchVideoInfo_p0_results(4) [OF encode_sample_url])
  note A = triggerDownload_resolves [where url = sample_url and env = "env_recovering 0 (Num 125)"
      and s = ?page and info = "sample_info (Num 125)" and lastError = None
      and fetched = "?page\<lparr>trace := trace ?page @ info_requests sample_url\<rparr>"
      and title = "Some (js ''Song'')" and page = ?page]
  note B = triggerDownload_resolves [where url = sample_url and env = "env_recovering 3 (Num 125)"
      and s = ?page and e = offline]
  note C = triggerDownload_resolves [where url = "js ''youtu.be/'' @ [55296]"
      and env = "env_recovering 0 (Num 125)" and s = ?page and e = URI_malformed]
  from A run got encode_sample_url
  have a: "fst (triggerDownload sample_url (Some (js ''Song'')) ?page) = Inr ()"
    "trace (snd (triggerDownload sample_url (Some (js ''Song'')) ?page)) =
     trace ?page @ [Request (js ''/api/download?url='' @ js ''https%3A%2F%2Fyoutu.be%2Fabc123''), Pause 1500]"
    "timers (snd (triggerDownload sample_url (Some (js ''Song'')) ?page)) =
     timers ?page @ [(120000, RemoveFrame (next_frame ?page))]"
    "fst (triggerDownload_p0 sample_url (Some (js ''Song'')) ?page) = Inr ()"
    "timers (snd (triggerDownload_p0 sample_url (Some (js ''Song'')) ?page)) =
     timers ?page @ [(60000, RemoveFrame (next_frame ?page))]"
    by auto
  from B startDownload_try_offline [of "Num 125" ?page] startDownload_try_p0_offline [of "Num 125" ?page]
  have b: "fst (startDownload_retry (env_recovering 3 (Num 125)) sample_url 2 0 None ?page) = None"
    "fst (fetchVideoInfo_p0 (env_recovering 3 (Num 125) 0) sample_url ?page) = Inl offline"
    by blast+
  from C encode_lone_surrogate
  have c: "frames (startDownload (env_recovering 0 (Num 125)) (js ''youtu.be/'' @ [55296]) ?page) =
     frames ?page"
    "frames (startDownload_p0 (env_recovering 0 (Num 125)) (js ''youtu.be/'' @ [55296]) ?page) =
     frames ?page"
    by blast+
  from run got a b c encode_sample_url encode_lone_surrogate
    startDownload_try_offline [of "Num 125" ?page]
    startDownload_try_p0_offline [of "Num 125" ?page]
  show ?thesis by (simp only: simp_thms)
qed




end
